theory Spec2Isabelle
  imports Main "HOL-Library.AList"
begin

section \<open>Canvas and renderer lifecycle of \<^verbatim>\<open>src/core/rendering.js\<close>\<close>

text \<open>
  The file defines five methods of the sketch object: \<^verbatim>\<open>createCanvas\<close>,
  \<^verbatim>\<open>resizeCanvas\<close>, \<^verbatim>\<open>noCanvas\<close>, \<^verbatim>\<open>createGraphics\<close> and \<^verbatim>\<open>blendMode\<close>.
  They mutate the sketch (\<^verbatim>\<open>this\<close>), the renderer objects it refers to, the document
  and the module variable \<^verbatim>\<open>defaultId\<close>. The model threads one state record through
  every call. Renderer objects and canvas elements live in stores indexed by references,
  because \<^verbatim>\<open>this._renderer\<close> and the entries of \<^verbatim>\<open>this._elements\<close> alias the same
  objects and the code compares them by identity.

  A JavaScript exception is a value: a method returns \<open>Inl (e, s)\<close> when it throws
  \<open>e\<close> with the state \<open>s\<close> reached at the throw, and \<open>Inr\<close> when it returns.
\<close>

subsection \<open>Values, errors and references\<close>

type_synonym ref = nat

datatype jsval =
    JUndefined
  | JNull
  | JBool bool
  | JNum int
  | JStr string
  | JObject ref
  | JFunction ref

datatype error =
    TypeError
  | Error string

text \<open>The \<^verbatim>\<open>typeof\<close> operator; \<^verbatim>\<open>typeof null\<close> is \<^verbatim>\<open>'object'\<close>.\<close>

fun typeof :: "jsval \<Rightarrow> string" where
  "typeof JUndefined = ''undefined''"
| "typeof JNull = ''object''"
| "typeof (JBool b) = ''boolean''"
| "typeof (JNum n) = ''number''"
| "typeof (JStr s) = ''string''"
| "typeof (JObject r) = ''object''"
| "typeof (JFunction r) = ''function''"

subsection \<open>The constants module\<close>

text \<open>
  \<^verbatim>\<open>require('./constants')\<close> is not part of the source. Its values are a parameter of
  the model: every definition that reads a constant takes the record, and nothing is
  assumed about the strings it holds.
\<close>

record constants =
  P2D :: string
  WEBGL :: string
  BLEND :: string
  DARKEST :: string
  LIGHTEST :: string
  DIFFERENCE :: string
  MULTIPLY :: string
  EXCLUSION :: string
  SCREEN :: string
  REPLACE :: string
  OVERLAY :: string
  HARD_LIGHT :: string
  SOFT_LIGHT :: string
  DODGE :: string
  BURN :: string
  ADD :: string
  NORMAL :: string

subsection \<open>Drawing context, renderers, surfaces\<close>

text \<open>
  The backend drawing context, as \<^verbatim>\<open>for (key in ctx)\<close> and \<^verbatim>\<open>ctx[key] = v\<close> see
  it: its enumerable properties in enumeration order, and the names the backend
  protects against writing.
\<close>

record backend_context =
  props :: "(string \<times> jsval) list"
  readonly :: "string list"

datatype variant = Renderer2D | RendererGL

text \<open>
  The methods of a renderer are not in the source; \<open>calls\<close> logs each invocation the
  source makes on a renderer, in order, so that "invokes" and "forwards" can be stated.
\<close>

datatype rcall = CallResize int int | CallApplyDefaults | CallBlendMode string

record renderer =
  variant :: variant
  isMainCanvas :: bool
  elt :: ref
  rwidth :: int
  rheight :: int
  activeMode :: "string option"
  calls :: "rcall list"

record element =
  eid :: string
  classList :: "string list"
  dataset_hidden :: bool
  visibility :: string
  display :: string
  ewidth :: int
  eheight :: int

datatype node = Body | UserNode ref

text \<open>
  The sketch and what it reaches. \<open>doc\<close> is the display tree: the attached surfaces
  with their parent node, in tree order (a surface appended to a container is the last
  one). \<open>defaultId\<close> is the module variable, \<open>console\<close> what \<^verbatim>\<open>console.warn\<close> printed.
\<close>

record sketch =
  renderer :: "ref option"
  elements :: "ref list"
  defaultGraphicsCreated :: bool
  setupDone :: bool
  userNode :: "ref option"
  canvas :: "ref option"
  drawingContext :: backend_context
  width :: int
  height :: int
  renderers :: "ref \<Rightarrow> renderer"
  nextRenderer :: ref
  elts :: "ref \<Rightarrow> element"
  nextElt :: ref
  doc :: "(node \<times> ref) list"
  defaultId :: string
  console :: "string list"

type_synonym 'a result = "(error \<times> sketch) + 'a"

text \<open>
  The collaborators outside the source: what resizing and \<^verbatim>\<open>_applyDefaults\<close> do to the
  properties of the backend context, the context a new renderer obtains, and
  \<^verbatim>\<open>redraw\<close>, which runs the client's drawing routine once.
\<close>

record host =
  resetContext :: "(string \<times> jsval) list \<Rightarrow> (string \<times> jsval) list"
  defaultsContext :: "(string \<times> jsval) list \<Rightarrow> (string \<times> jsval) list"
  getContext :: "variant \<Rightarrow> backend_context"
  redraw :: "sketch \<Rightarrow> sketch result"

subsection \<open>The document\<close>

definition attached :: "sketch \<Rightarrow> ref list" where
  "attached s = map snd (doc s)"

definition getElementById :: "sketch \<Rightarrow> string \<Rightarrow> ref option" where
  "getElementById s i = find (\<lambda>e. eid (elts s e) = i) (attached s)"

definition parentNode :: "sketch \<Rightarrow> ref \<Rightarrow> node option" where
  "parentNode s c = map_option fst (find (\<lambda>pe. snd pe = c) (doc s))"

definition removeChild :: "ref \<Rightarrow> sketch \<Rightarrow> sketch" where
  "removeChild c s = s\<lparr>doc := filter (\<lambda>pe. snd pe \<noteq> c) (doc s)\<rparr>"

definition appendChild :: "node \<Rightarrow> ref \<Rightarrow> sketch \<Rightarrow> sketch" where
  "appendChild p c s = s\<lparr>doc := filter (\<lambda>pe. snd pe \<noteq> c) (doc s) @ [(p, c)]\<rparr>"

definition createElement :: "sketch \<Rightarrow> ref \<times> sketch" where
  "createElement s =
     (nextElt s,
      s\<lparr>elts := (elts s)(nextElt s :=
           \<lparr>eid = [], classList = [], dataset_hidden = False, visibility = [], display = [],
            ewidth = 300, eheight = 150\<rparr>),
        nextElt := Suc (nextElt s)\<rparr>)"

subsection \<open>Renderer methods\<close>

text \<open>
  Modelled from the spec: the constructors \<^verbatim>\<open>p5.Renderer2D\<close> and \<^verbatim>\<open>p5.RendererGL\<close>
  are not in the source. A renderer owns the surface it is given and is flagged default
  when \<^verbatim>\<open>isMainCanvas\<close> is passed; the default renderer's surface is the sketch's
  current default surface (\<^verbatim>\<open>this.canvas\<close>) and its context the sketch's
  \<^verbatim>\<open>drawingContext\<close>. The surface of a renderer that is not the default one is an
  offscreen buffer and is hidden from display.
\<close>

definition new_Renderer :: "host \<Rightarrow> variant \<Rightarrow> ref \<Rightarrow> bool \<Rightarrow> sketch \<Rightarrow> ref \<times> sketch" where
  "new_Renderer H v c isMain s =
     (let r = nextRenderer s;
          s1 = s\<lparr>renderers := (renderers s)(r :=
                   \<lparr>variant = v, isMainCanvas = isMain, elt = c,
                    rwidth = ewidth (elts s c), rheight = eheight (elts s c),
                    activeMode = None, calls = []\<rparr>),
                 nextRenderer := Suc r\<rparr>
      in (r, if isMain then s1\<lparr>canvas := Some c, drawingContext := getContext H v\<rparr>
             else s1\<lparr>elts := (elts s1)(c := (elts s1 c)\<lparr>display := ''none''\<rparr>)\<rparr>))"

text \<open>
  Modelled from the spec: \<^verbatim>\<open>Renderer.resize(w, h)\<close> is not in the source. It sets the
  dimensions of the renderer and of the surface it owns; resizing resets the backend
  context, which for the default renderer is the sketch's \<^verbatim>\<open>drawingContext\<close>.
\<close>

definition Renderer_resize :: "host \<Rightarrow> ref \<Rightarrow> int \<Rightarrow> int \<Rightarrow> sketch \<Rightarrow> sketch" where
  "Renderer_resize H r w h s =
     (let R = renderers s r;
          s1 = s\<lparr>renderers := (renderers s)(r :=
                   R\<lparr>rwidth := w, rheight := h, calls := calls R @ [CallResize w h]\<rparr>),
                 elts := (elts s)(elt R := (elts s (elt R))\<lparr>ewidth := w, eheight := h\<rparr>)\<rparr>
      in if isMainCanvas R
         then s1\<lparr>drawingContext :=
                   (drawingContext s)\<lparr>props := resetContext H (props (drawingContext s))\<rparr>\<rparr>
         else s1)"

text \<open>
  Modelled from the spec: \<^verbatim>\<open>Renderer._applyDefaults()\<close> is not in the source. It puts
  the default drawing state into the backend context and leaves the dimensions alone.
\<close>

definition Renderer_applyDefaults :: "host \<Rightarrow> ref \<Rightarrow> sketch \<Rightarrow> sketch" where
  "Renderer_applyDefaults H r s =
     (let R = renderers s r;
          s1 = s\<lparr>renderers := (renderers s)(r := R\<lparr>calls := calls R @ [CallApplyDefaults]\<rparr>)\<rparr>
      in if isMainCanvas R
         then s1\<lparr>drawingContext :=
                   (drawingContext s)\<lparr>props := defaultsContext H (props (drawingContext s))\<rparr>\<rparr>
         else s1)"

text \<open>
  Modelled from the spec: \<^verbatim>\<open>Renderer.blendMode(mode)\<close> is not in the source. The
  renderer persists the mode it is given as its active compositing mode.
\<close>

definition Renderer_blendMode :: "ref \<Rightarrow> string \<Rightarrow> sketch \<Rightarrow> sketch" where
  "Renderer_blendMode r m s =
     (let R = renderers s r
      in s\<lparr>renderers := (renderers s)(r :=
             R\<lparr>activeMode := Some m, calls := calls R @ [CallBlendMode m]\<rparr>)\<rparr>)"

subsection \<open>blendMode (lines 301 to 329)\<close>

text \<open>
  \<^verbatim>\<open>p5._validateParameters\<close> checks the number and the types of the arguments. The
  typed signatures of the model admit exactly the calls that pass it, so it does not
  appear as a step.
\<close>

definition valid_modes :: "constants \<Rightarrow> string list" where
  "valid_modes K =
     [BLEND K, DARKEST K, LIGHTEST K, DIFFERENCE K, MULTIPLY K, EXCLUSION K, SCREEN K,
      REPLACE K, OVERLAY K, HARD_LIGHT K, SOFT_LIGHT K, DODGE K, BURN K, ADD K]"

definition deprecation_warning :: string where
  "deprecation_warning =
     ''NORMAL has been deprecated for use in blendMode. defaulting to BLEND instead.''"

definition blendMode :: "constants \<Rightarrow> string \<Rightarrow> sketch \<Rightarrow> sketch result" where
  "blendMode K m s =
     (if m = BLEND K \<or> m = DARKEST K \<or> m = LIGHTEST K \<or> m = DIFFERENCE K \<or>
         m = MULTIPLY K \<or> m = EXCLUSION K \<or> m = SCREEN K \<or> m = REPLACE K \<or>
         m = OVERLAY K \<or> m = HARD_LIGHT K \<or> m = SOFT_LIGHT K \<or> m = DODGE K \<or>
         m = BURN K \<or> m = ADD K
      then (case renderer s of
              None \<Rightarrow> Inl (TypeError, s)
            | Some r \<Rightarrow> Inr (Renderer_blendMode r m s))
      else if m = NORMAL K
      then (let s1 = s\<lparr>console := console s @ [deprecation_warning]\<rparr>
            in case renderer s1 of
                 None \<Rightarrow> Inl (TypeError, s1)
               | Some r \<Rightarrow> Inr (Renderer_blendMode r (BLEND K) s1))
      else Inl (Error (''Mode '' @ m @ '' not recognized.''), s))"

subsection \<open>noCanvas (lines 191 to 195)\<close>

text \<open>
  \<^verbatim>\<open>this.canvas.parentNode\<close> is \<^verbatim>\<open>null\<close> for a surface that is not attached, and
  calling \<^verbatim>\<open>removeChild\<close> on \<^verbatim>\<open>null\<close> throws.
\<close>

definition noCanvas :: "sketch \<Rightarrow> sketch result" where
  "noCanvas s =
     (case canvas s of
        None \<Rightarrow> Inr s
      | Some c \<Rightarrow>
          (case parentNode s c of
             None \<Rightarrow> Inl (TypeError, s)
           | Some p \<Rightarrow> Inr (removeChild c s)))"

subsection \<open>resizeCanvas (lines 146 to 172)\<close>

text \<open>Reading \<^verbatim>\<open>ctx[key]\<close>; an absent property reads as \<^verbatim>\<open>undefined\<close>.\<close>

definition get_prop :: "backend_context \<Rightarrow> string \<Rightarrow> jsval" where
  "get_prop ctx k = (case map_of (props ctx) k of None \<Rightarrow> JUndefined | Some v \<Rightarrow> v)"

text \<open>
  Writing \<^verbatim>\<open>ctx[key] = v\<close> in strict mode (the file starts with \<^verbatim>\<open>'use strict'\<close>):
  a protected property throws.
\<close>

definition set_prop :: "backend_context \<Rightarrow> string \<Rightarrow> jsval \<Rightarrow> error + backend_context" where
  "set_prop ctx k v =
     (if k \<in> set (readonly ctx) then Inl TypeError
      else Inr (ctx\<lparr>props := AList.update k v (props ctx)\<rparr>))"

text \<open>Lines 150 to 156: the loop over the keys of the context that fills \<^verbatim>\<open>props\<close>.\<close>

fun save_props ::
  "backend_context \<Rightarrow> string list \<Rightarrow> (string \<times> jsval) list \<Rightarrow> (string \<times> jsval) list" where
  "save_props ctx [] saved = saved"
| "save_props ctx (key # keys) saved =
     (let val = get_prop ctx key
      in if typeof val \<noteq> ''object'' \<and> typeof val \<noteq> ''function''
         then save_props ctx keys (AList.update key val saved)
         else save_props ctx keys saved)"

text \<open>Lines 161 to 167: the loop over \<^verbatim>\<open>props\<close>, each write inside \<^verbatim>\<open>try\<close>/\<^verbatim>\<open>catch\<close>.\<close>

fun restore_props :: "(string \<times> jsval) list \<Rightarrow> backend_context \<Rightarrow> backend_context" where
  "restore_props [] ctx = ctx"
| "restore_props ((savedKey, v) # rest) ctx =
     (case set_prop ctx savedKey v of
        Inl err \<Rightarrow> restore_props rest ctx
      | Inr ctx' \<Rightarrow> restore_props rest ctx')"

definition resizeCanvas :: "host \<Rightarrow> int \<Rightarrow> int \<Rightarrow> bool \<Rightarrow> sketch \<Rightarrow> sketch result" where
  "resizeCanvas H w h noRedraw s =
     (case renderer s of
        None \<Rightarrow> Inr s
      | Some r \<Rightarrow>
          (let saved = save_props (drawingContext s) (map fst (props (drawingContext s))) [];
               s1 = Renderer_resize H r w h s;
               s2 = s1\<lparr>width := w, height := h\<rparr>;
               s3 = s2\<lparr>drawingContext := restore_props saved (drawingContext s2)\<rparr>
           in if \<not> noRedraw then redraw H s3 else Inr s3))"

subsection \<open>createCanvas (lines 53 to 117)\<close>

text \<open>Line 56: \<^verbatim>\<open>renderer || constants.P2D\<close>; an omitted or empty argument is falsy.\<close>

definition requested :: "constants \<Rightarrow> string option \<Rightarrow> string" where
  "requested K arg = (case arg of None \<Rightarrow> P2D K | Some x \<Rightarrow> if x = [] then P2D K else x)"

definition defaultClass :: string where
  "defaultClass = ''p5Canvas''"

text \<open>The decimal digits of a counter, as \<^verbatim>\<open>'defaultCanvas' + i\<close> appends them.\<close>

fun toString :: "nat \<Rightarrow> string" where
  "toString n =
     (if n < 10 then [char_of (48 + n)]
      else toString (n div 10) @ [char_of (48 + n mod 10)])"

declare toString.simps [simp del]

definition defaultCanvas :: "nat \<Rightarrow> string" where
  "defaultCanvas i = ''defaultCanvas'' @ toString i"

definition parse_digits :: "string \<Rightarrow> nat" where
  "parse_digits cs = foldl (\<lambda>a c. 10 * a + (of_char c - 48)) 0 cs"

text \<open>
  Lines 75 to 78: \<^verbatim>\<open>while (document.getElementById('defaultCanvas' + i)) i++\<close>.
  The loop ends because the document holds finitely many surfaces.
\<close>

function scan_default_id :: "sketch \<Rightarrow> nat \<Rightarrow> nat" where
  "scan_default_id s i =
     (if getElementById s (defaultCanvas i) \<noteq> None then scan_default_id s (Suc i) else i)"
  by pat_completeness auto
termination
proof -
  have snoc: "parse_digits (cs @ [c]) = 10 * parse_digits cs + (of_char c - 48)" for cs c
    by (simp add: parse_digits_def)
  have parse: "parse_digits (toString n) = n" for n
  proof (induction n rule: toString.induct)
    case (1 n)
    show ?case
    proof (cases "n < 10")
      case True
      then show ?thesis
        by (subst toString.simps) (simp add: parse_digits_def)
    next
      case False
      have "n mod 10 < 10" by simp
      then have d: "(48 + n mod 10) mod 256 = 48 + n mod 10" by simp
      from False 1 have "parse_digits (toString (n div 10)) = n div 10" by simp
      with False d show ?thesis
        by (subst toString.simps) (simp add: snoc)
    qed
  qed
  have inj: "inj defaultCanvas"
  proof (rule injI)
    fix i j
    assume "defaultCanvas i = defaultCanvas j"
    then have "toString i = toString j" by (simp add: defaultCanvas_def)
    then have "parse_digits (toString i) = parse_digits (toString j)" by simp
    then show "i = j" by (simp add: parse)
  qed
  have taken: "finite {j. defaultCanvas j \<in> set ids}" for ids
  proof -
    have "{j. defaultCanvas j \<in> set ids} = defaultCanvas -` set ids" by auto
    then show ?thesis using inj by (simp add: finite_vimageI)
  qed
  let ?m = "\<lambda>(s, i). card {j. i \<le> j \<and> defaultCanvas j \<in> set (map (\<lambda>e. eid (elts s e)) (attached s))}"
  show ?thesis
  proof (relation "measure ?m")
    show "wf (measure ?m)" by simp
  next
    fix s :: sketch and i :: nat
    let ?ids = "map (\<lambda>e. eid (elts s e)) (attached s)"
    assume "getElementById s (defaultCanvas i) \<noteq> None"
    then have "find (\<lambda>e. eid (elts s e) = defaultCanvas i) (attached s) \<noteq> None"
      by (simp add: getElementById_def)
    then obtain e where "e \<in> set (attached s)" "eid (elts s e) = defaultCanvas i"
      unfolding find_None_iff by blast
    then have here: "defaultCanvas i \<in> set ?ids" by force
    have fin: "finite {j. i \<le> j \<and> defaultCanvas j \<in> set ?ids}"
      by (rule finite_subset [OF _ taken [of ?ids]]) auto
    have mem: "i \<in> {j. i \<le> j \<and> defaultCanvas j \<in> set ?ids}"
      using here by simp
    have nmem: "i \<notin> {j. Suc i \<le> j \<and> defaultCanvas j \<in> set ?ids}"
      by simp
    have sub: "{j. Suc i \<le> j \<and> defaultCanvas j \<in> set ?ids} \<subseteq> {j. i \<le> j \<and> defaultCanvas j \<in> set ?ids}"
      by (rule Collect_mono) simp
    have "{j. Suc i \<le> j \<and> defaultCanvas j \<in> set ?ids} \<subset> {j. i \<le> j \<and> defaultCanvas j \<in> set ?ids}"
      using mem nmem sub by blast
    then have "card {j. Suc i \<le> j \<and> defaultCanvas j \<in> set ?ids} < card {j. i \<le> j \<and> defaultCanvas j \<in> set ?ids}"
      using fin by (rule psubset_card_mono [rotated])
    then show "((s, Suc i), (s, i)) \<in> measure ?m"
      by simp
  qed
qed

declare scan_default_id.simps [simp del]

definition set_id_class :: "ref \<Rightarrow> string \<Rightarrow> sketch \<Rightarrow> sketch" where
  "set_id_class c i s =
     (let E = elts s c
      in s\<lparr>elts := (elts s)(c := E\<lparr>eid := i,
             classList := (if defaultClass \<in> set (classList E) then classList E
                           else classList E @ [defaultClass])\<rparr>)\<rparr>)"

text \<open>Lines 59 to 86: choosing the surface \<^verbatim>\<open>c\<close>.\<close>

definition createCanvas_surface :: "constants \<Rightarrow> string \<Rightarrow> sketch \<Rightarrow> (ref option \<times> sketch) result" where
  "createCanvas_surface K r s =
     (if r = WEBGL K then
        (case (case getElementById s (defaultId s) of
                 None \<Rightarrow> Inr s
               | Some c \<Rightarrow>
                   (case parentNode s c of
                      None \<Rightarrow> Inl (TypeError, s)
                    | Some p \<Rightarrow>
                        (let s1 = removeChild c s;
                             thisRenderer = renderer s1
                         in Inr (s1\<lparr>elements :=
                                  filter (\<lambda>e. Some e \<noteq> thisRenderer) (elements s1)\<rparr>)))) of
           Inl err \<Rightarrow> Inl err
         | Inr s1 \<Rightarrow>
             (let (c, s2) = createElement s1
              in Inr (Some c, set_id_class c (defaultId s2) s2)))
      else if \<not> defaultGraphicsCreated s then
        (let (c, s1) = createElement s;
             i = scan_default_id s1 0;
             s2 = s1\<lparr>defaultId := defaultCanvas i\<rparr>
         in Inr (Some c, set_id_class c (defaultId s2) s2))
      else Inr (canvas s, s))"

text \<open>Lines 89 to 92: hidden until setup is done.\<close>

definition createCanvas_hide :: "ref option \<Rightarrow> sketch \<Rightarrow> sketch result" where
  "createCanvas_hide c s =
     (if \<not> setupDone s then
        (case c of
           None \<Rightarrow> Inl (TypeError, s)
         | Some e \<Rightarrow>
             Inr (s\<lparr>elts := (elts s)(e :=
                    (elts s e)\<lparr>dataset_hidden := True, visibility := ''hidden''\<rparr>)\<rparr>))
      else Inr s)"

text \<open>Lines 94 to 99: attaching to the user's node or to the body.\<close>

definition createCanvas_attach :: "ref option \<Rightarrow> sketch \<Rightarrow> (ref \<times> sketch) result" where
  "createCanvas_attach c s =
     (case c of
        None \<Rightarrow> Inl (TypeError, s)
      | Some e \<Rightarrow>
          (case userNode s of
             Some u \<Rightarrow> Inr (e, appendChild (UserNode u) e s)
           | None \<Rightarrow> Inr (e, appendChild Body e s)))"

text \<open>Lines 103 to 113: constructing and registering the renderer.\<close>

definition createCanvas_init :: "constants \<Rightarrow> host \<Rightarrow> string \<Rightarrow> ref \<Rightarrow> sketch \<Rightarrow> sketch" where
  "createCanvas_init K H r c s =
     (if r = WEBGL K then
        (let (g, s1) = new_Renderer H RendererGL c True s;
             s2 = s1\<lparr>renderer := Some g\<rparr>
         in s2\<lparr>elements := elements s2 @ [g]\<rparr>)
      else if \<not> defaultGraphicsCreated s then
        (let (g, s1) = new_Renderer H Renderer2D c True s;
             s2 = s1\<lparr>renderer := Some g, defaultGraphicsCreated := True\<rparr>
         in s2\<lparr>elements := elements s2 @ [g]\<rparr>)
      else s)"

text \<open>Lines 114 to 116, on whatever \<^verbatim>\<open>this._renderer\<close> now is.\<close>

definition createCanvas_finish :: "host \<Rightarrow> int \<Rightarrow> int \<Rightarrow> sketch \<Rightarrow> (ref \<times> sketch) result" where
  "createCanvas_finish H w h s =
     (case renderer s of
        None \<Rightarrow> Inl (TypeError, s)
      | Some g \<Rightarrow> Inr (g, Renderer_applyDefaults H g (Renderer_resize H g w h s)))"

definition createCanvas ::
  "constants \<Rightarrow> host \<Rightarrow> int \<Rightarrow> int \<Rightarrow> string option \<Rightarrow> sketch \<Rightarrow> (ref \<times> sketch) result" where
  "createCanvas K H w h arg s =
     (let r = requested K arg
      in case createCanvas_surface K r s of
           Inl err \<Rightarrow> Inl err
         | Inr (c, s1) \<Rightarrow>
             (case createCanvas_hide c s1 of
                Inl err \<Rightarrow> Inl err
              | Inr s2 \<Rightarrow>
                  (case createCanvas_attach c s2 of
                     Inl err \<Rightarrow> Inl err
                   | Inr (e, s3) \<Rightarrow> createCanvas_finish H w h (createCanvas_init K H r e s3))))"

subsection \<open>createGraphics (lines 231 to 234)\<close>

text \<open>
  Modelled from the spec: the constructor \<^verbatim>\<open>p5.Graphics\<close>, to which the method hands
  its arguments and the sketch, is not in the source. It allocates a new surface and a
  new renderer of the requested backend that is not flagged default, and reuses and
  replaces nothing. The surface goes to the host container like any other, where the
  renderer's constructor hides it; the renderer is a live renderer of the sketch and so
  joins the registry, after the entries already there. It is then given the requested
  dimensions and the default drawing state.
\<close>

definition new_Graphics ::
  "constants \<Rightarrow> host \<Rightarrow> int \<Rightarrow> int \<Rightarrow> string option \<Rightarrow> sketch \<Rightarrow> ref \<times> sketch" where
  "new_Graphics K H w h arg s =
     (let r = requested K arg;
          (c, s1) = createElement s;
          s2 = (case userNode s1 of
                  Some u \<Rightarrow> appendChild (UserNode u) c s1
                | None \<Rightarrow> appendChild Body c s1);
          (g, s3) = new_Renderer H (if r = WEBGL K then RendererGL else Renderer2D) c False s2;
          s4 = s3\<lparr>elements := elements s3 @ [g]\<rparr>
      in (g, Renderer_applyDefaults H g (Renderer_resize H g w h s4)))"

definition createGraphics ::
  "constants \<Rightarrow> host \<Rightarrow> int \<Rightarrow> int \<Rightarrow> string option \<Rightarrow> sketch \<Rightarrow> ref \<times> sketch" where
  "createGraphics K H w h arg s = new_Graphics K H w h arg s"

subsection \<open>Sequences of calls and the shape of a sketch\<close>

fun createCanvas_seq ::
  "constants \<Rightarrow> host \<Rightarrow> (int \<times> int \<times> string option) list \<Rightarrow> sketch \<Rightarrow> sketch result" where
  "createCanvas_seq K H [] s = Inr s"
| "createCanvas_seq K H ((w, h, arg) # rest) s =
     (case createCanvas K H w h arg s of
        Inl err \<Rightarrow> Inl err
      | Inr (g, s') \<Rightarrow> createCanvas_seq K H rest s')"

text \<open>References in use lie below the allocation counters.\<close>

definition allocated :: "sketch \<Rightarrow> bool" where
  "allocated s =
     (list_all (\<lambda>e. e < nextRenderer s) (elements s) \<and>
      list_all (\<lambda>e. e < nextElt s) (attached s))"

text \<open>A sketch on which no default canvas has been created yet.\<close>

definition fresh :: "sketch \<Rightarrow> bool" where
  "fresh s =
     (renderer s = None \<and> canvas s = None \<and> \<not> defaultGraphicsCreated s \<and>
      filter (\<lambda>e. isMainCanvas (renderers s e)) (elements s) = [] \<and> allocated s)"

text \<open>
  A sketch whose default canvas exists: the current renderer is the one default renderer
  of the registry, it owns the current default surface, and that surface is the one
  attached surface carrying the reserved id.
\<close>

definition default_wf :: "sketch \<Rightarrow> bool" where
  "default_wf s =
     (case renderer s of
        None \<Rightarrow> False
      | Some g \<Rightarrow>
          (case canvas s of
             None \<Rightarrow> False
           | Some c \<Rightarrow>
               defaultGraphicsCreated s \<and>
               elt (renderers s g) = c \<and>
               filter (\<lambda>e. isMainCanvas (renderers s e)) (elements s) = [g] \<and>
               filter (\<lambda>e. eid (elts s e) = defaultId s) (attached s) = [c] \<and>
               allocated s))"

subsection \<open>Sample instances\<close>

text \<open>One assignment of pairwise distinct strings to the constants.\<close>

definition K0 :: constants where
  "K0 = \<lparr>P2D = ''p2d'', WEBGL = ''webgl'', BLEND = ''source-over'', DARKEST = ''darken'',
          LIGHTEST = ''lighten'', DIFFERENCE = ''difference'', MULTIPLY = ''multiply'',
          EXCLUSION = ''exclusion'', SCREEN = ''screen'', REPLACE = ''copy'',
          OVERLAY = ''overlay'', HARD_LIGHT = ''hard-light'', SOFT_LIGHT = ''soft-light'',
          DODGE = ''color-dodge'', BURN = ''color-burn'', ADD = ''lighter'',
          NORMAL = ''normal''\<rparr>"

text \<open>
  A host in the manner of a 2D canvas: a fresh or resized context paints black, the
  defaults set a white fill, and redraw draws nothing.
\<close>

definition canvas_defaults :: "(string \<times> jsval) list" where
  "canvas_defaults =
     [(''fillStyle'', JStr ''#000000''), (''strokeStyle'', JStr ''#000000''),
      (''lineWidth'', JNum 1), (''canvas'', JObject 0)]"

definition H0 :: host where
  "H0 = \<lparr>resetContext = (\<lambda>ps. canvas_defaults),
          defaultsContext = AList.update ''fillStyle'' (JStr ''#ffffff''),
          getContext = (\<lambda>v. \<lparr>props = canvas_defaults, readonly = [''canvas'']\<rparr>),
          redraw = Inr\<rparr>"

text \<open>The same host with a drawing routine that sets a red stroke.\<close>

definition H1 :: host where
  "H1 = H0\<lparr>redraw := (\<lambda>s. Inr (s\<lparr>drawingContext := (drawingContext s)\<lparr>props :=
            AList.update ''strokeStyle'' (JStr ''#ff0000'') (props (drawingContext s))\<rparr>\<rparr>))\<rparr>"

definition blank_element :: element where
  "blank_element =
     \<lparr>eid = [], classList = [], dataset_hidden = False, visibility = [], display = [],
      ewidth = 0, eheight = 0\<rparr>"

definition blank_renderer :: renderer where
  "blank_renderer =
     \<lparr>variant = Renderer2D, isMainCanvas = False, elt = 0, rwidth = 0, rheight = 0,
      activeMode = None, calls = []\<rparr>"

text \<open>A sketch before any canvas exists, in an empty document.\<close>

definition sketch0 :: sketch where
  "sketch0 =
     \<lparr>renderer = None, elements = [], defaultGraphicsCreated = False, setupDone = False,
      userNode = None, canvas = None, drawingContext = \<lparr>props = [], readonly = []\<rparr>,
      width = 100, height = 100, renderers = (\<lambda>r. blank_renderer), nextRenderer = 0,
      elts = (\<lambda>e. blank_element), nextElt = 0, doc = [], defaultId = ''defaultCanvas0'',
      console = []\<rparr>"

text \<open>The sketch after \<^verbatim>\<open>createCanvas(100, 100)\<close> on \<open>sketch0\<close>.\<close>

definition sketch1 :: sketch where
  "sketch1 =
     \<lparr>renderer = Some 0, elements = [0], defaultGraphicsCreated = True, setupDone = False,
      userNode = None, canvas = Some 0,
      drawingContext =
        \<lparr>props = [(''fillStyle'', JStr ''#ffffff''), (''strokeStyle'', JStr ''#000000''),
                  (''lineWidth'', JNum 1), (''canvas'', JObject 0)],
         readonly = [''canvas'']\<rparr>,
      width = 100, height = 100,
      renderers = (\<lambda>r. blank_renderer)(0 :=
        \<lparr>variant = Renderer2D, isMainCanvas = True, elt = 0, rwidth = 100, rheight = 100,
         activeMode = None, calls = [CallResize 100 100, CallApplyDefaults]\<rparr>),
      nextRenderer = 1,
      elts = (\<lambda>e. blank_element)(0 :=
        \<lparr>eid = ''defaultCanvas0'', classList = [''p5Canvas''], dataset_hidden = True,
         visibility = ''hidden'', display = [], ewidth = 100, eheight = 100\<rparr>),
      nextElt = 1, doc = [(Body, 0)], defaultId = ''defaultCanvas0'', console = []\<rparr>"

text \<open>The sketch after \<^verbatim>\<open>createCanvas(100, 100, WEBGL)\<close> on \<open>sketch1\<close>.\<close>

definition sketch2 :: sketch where
  "sketch2 =
     sketch1\<lparr>renderer := Some 1, elements := [1], canvas := Some 1,
       renderers := (renderers sketch1)(1 :=
         \<lparr>variant = RendererGL, isMainCanvas = True, elt = 1, rwidth = 100, rheight = 100,
          activeMode = None, calls = [CallResize 100 100, CallApplyDefaults]\<rparr>),
       nextRenderer := 2,
       elts := (elts sketch1)(1 :=
         \<lparr>eid = ''defaultCanvas0'', classList = [''p5Canvas''], dataset_hidden = True,
          visibility = ''hidden'', display = [], ewidth = 100, eheight = 100\<rparr>),
       nextElt := 2, doc := [(Body, 1)]\<rparr>"

text \<open>The sketch after \<^verbatim>\<open>createCanvas(50, 50, P2D)\<close> on \<open>sketch2\<close>.\<close>

definition sketch3 :: sketch where
  "sketch3 =
     sketch2\<lparr>renderers := (renderers sketch2)(1 :=
         \<lparr>variant = RendererGL, isMainCanvas = True, elt = 1, rwidth = 50, rheight = 50,
          activeMode = None,
          calls = [CallResize 100 100, CallApplyDefaults, CallResize 50 50, CallApplyDefaults]\<rparr>),
       elts := (elts sketch2)(1 :=
         \<lparr>eid = ''defaultCanvas0'', classList = [''p5Canvas''], dataset_hidden = True,
          visibility = ''hidden'', display = [], ewidth = 50, eheight = 50\<rparr>)\<rparr>"

text \<open>
  The sketch after \<^verbatim>\<open>resizeCanvas(200, 200)\<close> on \<open>sketch1\<close> under the host whose
  drawing routine sets a red stroke.
\<close>

definition sketch1_redrawn :: sketch where
  "sketch1_redrawn =
     sketch1\<lparr>width := 200, height := 200,
       drawingContext :=
         \<lparr>props = [(''fillStyle'', JStr ''#ffffff''), (''strokeStyle'', JStr ''#ff0000''),
                   (''lineWidth'', JNum 1), (''canvas'', JObject 0)],
          readonly = [''canvas'']\<rparr>,
       renderers := (renderers sketch1)(0 :=
         \<lparr>variant = Renderer2D, isMainCanvas = True, elt = 0, rwidth = 200, rheight = 200,
          activeMode = None,
          calls = [CallResize 100 100, CallApplyDefaults, CallResize 200 200]\<rparr>),
       elts := (elts sketch1)(0 :=
         \<lparr>eid = ''defaultCanvas0'', classList = [''p5Canvas''], dataset_hidden = True,
          visibility = ''hidden'', display = [], ewidth = 200, eheight = 200\<rparr>)\<rparr>"

text \<open>The sketch after \<^verbatim>\<open>noCanvas()\<close> on \<open>sketch1\<close>: the default surface is detached.\<close>

definition sketch1_detached :: sketch where
  "sketch1_detached = sketch1\<lparr>doc := []\<rparr>"

text \<open>The sketch after \<^verbatim>\<open>createCanvas(100, 100, WEBGL)\<close> on \<open>sketch1_detached\<close>.\<close>

definition sketch_two_defaults :: sketch where
  "sketch_two_defaults = sketch2\<lparr>elements := [0, 1]\<rparr>"

text \<open>The sketch after \<^verbatim>\<open>createCanvas(640, 480)\<close> on \<open>sketch1\<close>.\<close>

definition sketch1_again :: sketch where
  "sketch1_again =
     sketch1\<lparr>renderers := (renderers sketch1)(0 :=
         \<lparr>variant = Renderer2D, isMainCanvas = True, elt = 0, rwidth = 640, rheight = 480,
          activeMode = None,
          calls = [CallResize 100 100, CallApplyDefaults, CallResize 640 480,
                   CallApplyDefaults]\<rparr>),
       elts := (elts sketch1)(0 :=
         \<lparr>eid = ''defaultCanvas0'', classList = [''p5Canvas''], dataset_hidden = True,
          visibility = ''hidden'', display = [], ewidth = 640, eheight = 480\<rparr>)\<rparr>"

text \<open>The sketch after \<^verbatim>\<open>createGraphics(50, 50)\<close> on \<open>sketch1\<close>.\<close>

definition sketch1_graphics :: sketch where
  "sketch1_graphics =
     sketch1\<lparr>elements := [0, 1],
       renderers := (renderers sketch1)(1 :=
         \<lparr>variant = Renderer2D, isMainCanvas = False, elt = 1, rwidth = 50, rheight = 50,
          activeMode = None, calls = [CallResize 50 50, CallApplyDefaults]\<rparr>),
       nextRenderer := 2,
       elts := (elts sketch1)(1 :=
         \<lparr>eid = [], classList = [], dataset_hidden = False, visibility = [],
          display = ''none'', ewidth = 50, eheight = 50\<rparr>),
       nextElt := 2, doc := [(Body, 0), (Body, 1)]\<rparr>"

text \<open>
  A sketch whose context holds styles set by the client and a protected scalar
  property, and a host whose resize wipes the styles and moves the protected value.
\<close>

definition sketch_styled :: sketch where
  "sketch_styled =
     sketch1\<lparr>drawingContext :=
       \<lparr>props = [(''fillStyle'', JStr ''#ff8800''), (''lineWidth'', JNum 4),
                 (''canvas'', JObject 0), (''drawingBufferWidth'', JNum 100)],
        readonly = [''canvas'', ''drawingBufferWidth'']\<rparr>\<rparr>"

definition H2 :: host where
  "H2 = H0\<lparr>resetContext := (\<lambda>ps.
           [(''fillStyle'', JStr ''#000000''), (''lineWidth'', JNum 1),
            (''canvas'', JObject 0), (''drawingBufferWidth'', JNum 200)])\<rparr>"

text \<open>
  A sketch before any canvas exists, in a document where a surface made by hand already
  carries the id \<^verbatim>\<open>defaultCanvas0\<close>.
\<close>

definition sketch_taken :: sketch where
  "sketch_taken =
     sketch0\<lparr>elts := (elts sketch0)(0 := blank_element\<lparr>eid := ''defaultCanvas0''\<rparr>),
       nextElt := 1, doc := [(Body, 0)]\<rparr>"

section \<open>Auxiliary facts\<close>

lemma filter_single_find: "filter P xs = [c] \<Longrightarrow> find P xs = Some c"
  by (induction xs) (auto split: if_splits)

lemma filter_single_holds: "filter P xs = [c] \<Longrightarrow> P c"
proof -
  assume "filter P xs = [c]"
  then have "c \<in> set (filter P xs)" by simp
  then show "P c" by simp
qed

lemma filter_single_others: "filter P xs = [c] \<Longrightarrow> filter P (filter (\<lambda>e. e \<noteq> c) xs) = []"
  by (induction xs) (auto split: if_splits simp: filter_empty_conv)

lemma filter_single_count:
  assumes "filter P xs = [c]"
  shows "Suc (length (filter (\<lambda>e. e \<noteq> c) xs)) = length xs"
proof -
  have pc: "P c" using assms by (rule filter_single_holds)
  have "filter (\<lambda>e. e = c) (filter P xs) = filter (\<lambda>e. e = c) xs"
    using pc by (induction xs) auto
  with assms have "filter (\<lambda>e. e = c) xs = [c]" by simp
  then have "length (filter (\<lambda>e. e = c) xs) = 1" by simp
  moreover have "length (filter (\<lambda>e. e = c) xs) + length (filter (\<lambda>e. \<not> e = c) xs) = length xs"
    by (rule sum_length_filter_compl)
  ultimately show ?thesis by simp
qed

lemma scan_default_id_spec:
  "i0 \<le> scan_default_id s i0 \<and>
   getElementById s (defaultCanvas (scan_default_id s i0)) = None \<and>
   (\<forall>j. i0 \<le> j \<and> j < scan_default_id s i0 \<longrightarrow> getElementById s (defaultCanvas j) \<noteq> None)"
proof (induction s i0 rule: scan_default_id.induct)
  case (1 s i)
  show ?case
  proof (cases "getElementById s (defaultCanvas i) = None")
    case True
    then have "scan_default_id s i = i" by (subst scan_default_id.simps) simp
    with True show ?thesis by auto
  next
    case False
    with 1 have IH: "Suc i \<le> scan_default_id s (Suc i) \<and>
       getElementById s (defaultCanvas (scan_default_id s (Suc i))) = None \<and>
       (\<forall>j. Suc i \<le> j \<and> j < scan_default_id s (Suc i) \<longrightarrow> getElementById s (defaultCanvas j) \<noteq> None)"
      by simp
    have eq: "scan_default_id s i = scan_default_id s (Suc i)"
      using False by (subst scan_default_id.simps) simp
    show ?thesis
      unfolding eq using IH False
      by (metis Suc_leD le_neq_implies_less Suc_leI)
  qed
qed


lemma getElementById_parentNode:
  "getElementById s i = Some c \<Longrightarrow> \<exists>p. parentNode s c = Some p"
proof -
  assume "getElementById s i = Some c"
  then have "c \<in> set (attached s)"
    by (auto simp: getElementById_def find_Some_iff)
  then obtain pe where "pe \<in> set (doc s)" "snd pe = c"
    by (auto simp: attached_def)
  then have "find (\<lambda>pe. snd pe = c) (doc s) \<noteq> None"
    unfolding find_None_iff by blast
  then show ?thesis by (auto simp: parentNode_def)
qed

lemma attached_removeChild: "attached (removeChild c s) = filter (\<lambda>e. e \<noteq> c) (attached s)"
  by (simp add: attached_def removeChild_def filter_map comp_def)

lemma attached_appendChild:
  "attached (appendChild p c s) = filter (\<lambda>e. e \<noteq> c) (attached s) @ [c]"
  by (simp add: attached_def appendChild_def filter_map comp_def)

text \<open>The state in which the Accelerated3D branch leaves lines 59 to 71.\<close>

lemma createCanvas_surface_webgl:
  assumes "getElementById s (defaultId s) = Some c"
  shows "createCanvas_surface K (WEBGL K) s =
     Inr (Some (nextElt s),
          set_id_class (nextElt s) (defaultId s)
            (snd (createElement
               ((removeChild c s)\<lparr>elements := filter (\<lambda>e. Some e \<noteq> renderer s) (elements s)\<rparr>))))"
proof -
  from getElementById_parentNode [OF assms] obtain p where "parentNode s c = Some p" ..
  with assms show ?thesis
    by (simp add: createCanvas_surface_def Let_def createElement_def removeChild_def)
qed


lemma createCanvas_webgl:
  assumes "requested K arg = WEBGL K" and "getElementById s (defaultId s) = Some c"
  shows "\<exists>s'. createCanvas K H w h arg s = Inr (nextRenderer s, s') \<and>
     renderer s' = Some (nextRenderer s) \<and>
     canvas s' = Some (nextElt s) \<and>
     elements s' = filter (\<lambda>e. Some e \<noteq> renderer s) (elements s) @ [nextRenderer s] \<and>
     attached s' = filter (\<lambda>e. e \<noteq> nextElt s) (filter (\<lambda>e. e \<noteq> c) (attached s)) @ [nextElt s] \<and>
     nextRenderer s' = Suc (nextRenderer s) \<and>
     nextElt s' = Suc (nextElt s) \<and>
     defaultId s' = defaultId s \<and>
     defaultGraphicsCreated s' = defaultGraphicsCreated s \<and>
     (\<forall>e. eid (elts s' e) = (if e = nextElt s then defaultId s else eid (elts s e))) \<and>
     (\<forall>r. r \<noteq> nextRenderer s \<longrightarrow> renderers s' r = renderers s r) \<and>
     renderers s' (nextRenderer s) =
       \<lparr>variant = RendererGL, isMainCanvas = True, elt = nextElt s, rwidth = w, rheight = h,
        activeMode = None, calls = [CallResize w h, CallApplyDefaults]\<rparr>"
  using assms
  by (simp add: createCanvas_def createCanvas_surface_webgl createCanvas_hide_def
      createCanvas_attach_def createCanvas_init_def createCanvas_finish_def
      createElement_def set_id_class_def new_Renderer_def Renderer_resize_def
      Renderer_applyDefaults_def Let_def attached_removeChild attached_appendChild
      attached_def appendChild_def removeChild_def filter_map comp_def
      split: option.splits)


lemma createCanvas_webgl_first:
  assumes "requested K arg = WEBGL K" and "getElementById s (defaultId s) = None"
  shows "\<exists>s'. createCanvas K H w h arg s = Inr (nextRenderer s, s') \<and>
     renderer s' = Some (nextRenderer s) \<and>
     elements s' = elements s @ [nextRenderer s] \<and>
     renderers s' (nextRenderer s) =
       \<lparr>variant = RendererGL, isMainCanvas = True, elt = nextElt s, rwidth = w, rheight = h,
        activeMode = None, calls = [CallResize w h, CallApplyDefaults]\<rparr>"
  using assms
  by (simp add: createCanvas_def createCanvas_surface_def createCanvas_hide_def
      createCanvas_attach_def createCanvas_init_def createCanvas_finish_def
      createElement_def set_id_class_def new_Renderer_def Renderer_resize_def
      Renderer_applyDefaults_def Let_def appendChild_def
      split: option.splits)

lemma createCanvas_2d_first:
  assumes "requested K arg \<noteq> WEBGL K" and "\<not> defaultGraphicsCreated s"
  shows "\<exists>s'. createCanvas K H w h arg s = Inr (nextRenderer s, s') \<and>
     renderer s' = Some (nextRenderer s) \<and>
     canvas s' = Some (nextElt s) \<and>
     elements s' = elements s @ [nextRenderer s] \<and>
     attached s' = filter (\<lambda>e. e \<noteq> nextElt s) (attached s) @ [nextElt s] \<and>
     nextRenderer s' = Suc (nextRenderer s) \<and>
     nextElt s' = Suc (nextElt s) \<and>
     defaultId s' = defaultCanvas (scan_default_id (snd (createElement s)) 0) \<and>
     defaultGraphicsCreated s' \<and>
     (\<forall>e. eid (elts s' e) = (if e = nextElt s then defaultId s' else eid (elts s e))) \<and>
     (\<forall>r. r \<noteq> nextRenderer s \<longrightarrow> renderers s' r = renderers s r) \<and>
     renderers s' (nextRenderer s) =
       \<lparr>variant = Renderer2D, isMainCanvas = True, elt = nextElt s, rwidth = w, rheight = h,
        activeMode = None, calls = [CallResize w h, CallApplyDefaults]\<rparr>"
  using assms
  by (simp add: createCanvas_def createCanvas_surface_def createCanvas_hide_def
      createCanvas_attach_def createCanvas_init_def createCanvas_finish_def
      createElement_def set_id_class_def new_Renderer_def Renderer_resize_def
      Renderer_applyDefaults_def Let_def attached_def appendChild_def filter_map comp_def
      split: option.splits)

lemma createCanvas_2d_again:
  assumes "requested K arg \<noteq> WEBGL K" and "defaultGraphicsCreated s"
    and "renderer s = Some g" and "canvas s = Some c"
  shows "\<exists>s'. createCanvas K H w h arg s = Inr (g, s') \<and>
     renderer s' = Some g \<and>
     canvas s' = Some c \<and>
     elements s' = elements s \<and>
     attached s' = filter (\<lambda>e. e \<noteq> c) (attached s) @ [c] \<and>
     nextRenderer s' = nextRenderer s \<and>
     nextElt s' = nextElt s \<and>
     defaultId s' = defaultId s \<and>
     defaultGraphicsCreated s' \<and>
     (\<forall>e. eid (elts s' e) = eid (elts s e)) \<and>
     (\<forall>r. r \<noteq> g \<longrightarrow> renderers s' r = renderers s r) \<and>
     renderers s' g =
       (renderers s g)\<lparr>rwidth := w, rheight := h,
          calls := calls (renderers s g) @ [CallResize w h, CallApplyDefaults]\<rparr>"
  using assms
  by (simp add: createCanvas_def createCanvas_surface_def createCanvas_hide_def
      createCanvas_attach_def createCanvas_init_def createCanvas_finish_def
      Renderer_resize_def Renderer_applyDefaults_def Let_def attached_def appendChild_def
      filter_map comp_def
      split: option.splits)


lemma default_wfD:
  assumes "default_wf s"
  obtains g c where "renderer s = Some g" "canvas s = Some c" "defaultGraphicsCreated s"
    "elt (renderers s g) = c"
    "filter (\<lambda>e. isMainCanvas (renderers s e)) (elements s) = [g]"
    "filter (\<lambda>e. eid (elts s e) = defaultId s) (attached s) = [c]"
    "allocated s"
  using assms by (auto simp: default_wf_def split: option.splits)

lemma default_wfI:
  assumes "renderer s = Some g" "canvas s = Some c" "defaultGraphicsCreated s"
    "elt (renderers s g) = c"
    "filter (\<lambda>e. isMainCanvas (renderers s e)) (elements s) = [g]"
    "filter (\<lambda>e. eid (elts s e) = defaultId s) (attached s) = [c]"
    "allocated s"
  shows "default_wf s"
  using assms by (simp add: default_wf_def)

lemma filter_single_only: "filter P xs = [c] \<Longrightarrow> x \<in> set xs \<Longrightarrow> P x \<Longrightarrow> x = c"
proof -
  assume a: "filter P xs = [c]" and b: "x \<in> set xs" and c: "P x"
  from b c have "x \<in> set (filter P xs)" by simp
  with a show "x = c" by simp
qed

lemma default_wf_getElementById:
  "filter (\<lambda>e. eid (elts s e) = defaultId s) (attached s) = [c] \<Longrightarrow>
   getElementById s (defaultId s) = Some c"
  unfolding getElementById_def by (rule filter_single_find)

lemma default_wf_webgl:
  assumes wf: "default_wf s" and req: "requested K arg = WEBGL K"
  shows "\<exists>g' s'. createCanvas K H w h arg s = Inr (g', s') \<and> default_wf s'"
proof -
  from wf obtain g c where
    r: "renderer s = Some g" and cv: "canvas s = Some c" and
    dgc: "defaultGraphicsCreated s" and
    mains: "filter (\<lambda>e. isMainCanvas (renderers s e)) (elements s) = [g]" and
    ids: "filter (\<lambda>e. eid (elts s e) = defaultId s) (attached s) = [c]" and
    al: "allocated s"
    by (rule default_wfD)
  have found: "getElementById s (defaultId s) = Some c"
    using ids by (rule default_wf_getElementById)
  from createCanvas_webgl [OF req found, of H w h] obtain s' where
    res: "createCanvas K H w h arg s = Inr (nextRenderer s, s')" and
    r': "renderer s' = Some (nextRenderer s)" and
    cv': "canvas s' = Some (nextElt s)" and
    el': "elements s' = filter (\<lambda>e. Some e \<noteq> renderer s) (elements s) @ [nextRenderer s]" and
    at': "attached s' = filter (\<lambda>e. e \<noteq> nextElt s) (filter (\<lambda>e. e \<noteq> c) (attached s)) @ [nextElt s]" and
    nr': "nextRenderer s' = Suc (nextRenderer s)" and
    ne': "nextElt s' = Suc (nextElt s)" and
    di': "defaultId s' = defaultId s" and
    dgc': "defaultGraphicsCreated s' = defaultGraphicsCreated s" and
    eid': "\<forall>e. eid (elts s' e) = (if e = nextElt s then defaultId s else eid (elts s e))" and
    old': "\<forall>r. r \<noteq> nextRenderer s \<longrightarrow> renderers s' r = renderers s r" and
    new': "renderers s' (nextRenderer s) =
       \<lparr>variant = RendererGL, isMainCanvas = True, elt = nextElt s, rwidth = w, rheight = h,
        activeMode = None, calls = [CallResize w h, CallApplyDefaults]\<rparr>"
    by blast
  have bound_r: "\<forall>e \<in> set (elements s). e < nextRenderer s"
    using al by (simp add: allocated_def list_all_iff)
  have bound_e: "\<forall>e \<in> set (attached s). e < nextElt s"
    using al by (simp add: allocated_def list_all_iff)
  have "filter (\<lambda>e. isMainCanvas (renderers s' e)) (filter (\<lambda>e. e \<noteq> g) (elements s)) = []"
  proof -
    have "\<forall>x \<in> set (filter (\<lambda>e. e \<noteq> g) (elements s)). \<not> isMainCanvas (renderers s' x)"
    proof
      fix x assume x: "x \<in> set (filter (\<lambda>e. e \<noteq> g) (elements s))"
      then have "x \<noteq> nextRenderer s" using bound_r by auto
      then have "renderers s' x = renderers s x" using old' by simp
      moreover have "\<not> isMainCanvas (renderers s x)"
        using filter_single_only [OF mains, of x] x by auto
      ultimately show "\<not> isMainCanvas (renderers s' x)" by simp
    qed
    then show ?thesis by (simp only: filter_empty_conv) 
  qed
  then have mains': "filter (\<lambda>e. isMainCanvas (renderers s' e)) (elements s') = [nextRenderer s]"
    using el' r new' by simp
  have "filter (\<lambda>e. eid (elts s' e) = defaultId s')
          (filter (\<lambda>e. e \<noteq> nextElt s) (filter (\<lambda>e. e \<noteq> c) (attached s))) = []"
  proof -
    have "\<forall>x \<in> set (filter (\<lambda>e. e \<noteq> nextElt s) (filter (\<lambda>e. e \<noteq> c) (attached s))).
            \<not> eid (elts s' x) = defaultId s'"
    proof
      fix x assume x: "x \<in> set (filter (\<lambda>e. e \<noteq> nextElt s) (filter (\<lambda>e. e \<noteq> c) (attached s)))"
      then have "eid (elts s' x) = eid (elts s x)" using eid' by simp
      moreover have "eid (elts s x) \<noteq> defaultId s"
        using filter_single_only [OF ids, of x] x by auto
      ultimately show "\<not> eid (elts s' x) = defaultId s'" using di' by simp
    qed
    then show ?thesis by (simp only: filter_empty_conv)
  qed
  then have ids': "filter (\<lambda>e. eid (elts s' e) = defaultId s') (attached s') = [nextElt s]"
    using at' eid' di' by simp
  have al': "allocated s'"
    using bound_r bound_e el' at' nr' ne'
    by (auto simp: allocated_def list_all_iff)
  have "default_wf s'"
    by (rule default_wfI [OF r' cv' _ _ mains' ids' al']) (simp_all add: dgc' dgc new')
  with res show ?thesis by blast
qed


lemma default_wf_2d_again:
  assumes wf: "default_wf s" and req: "requested K arg \<noteq> WEBGL K"
  shows "\<exists>g' s'. createCanvas K H w h arg s = Inr (g', s') \<and> default_wf s'"
proof -
  from wf obtain g c where
    r: "renderer s = Some g" and cv: "canvas s = Some c" and
    dgc: "defaultGraphicsCreated s" and
    own: "elt (renderers s g) = c" and
    mains: "filter (\<lambda>e. isMainCanvas (renderers s e)) (elements s) = [g]" and
    ids: "filter (\<lambda>e. eid (elts s e) = defaultId s) (attached s) = [c]" and
    al: "allocated s"
    by (rule default_wfD)
  from createCanvas_2d_again [OF req dgc r cv, of H w h] obtain s' where
    res: "createCanvas K H w h arg s = Inr (g, s')" and
    r': "renderer s' = Some g" and
    cv': "canvas s' = Some c" and
    el': "elements s' = elements s" and
    at': "attached s' = filter (\<lambda>e. e \<noteq> c) (attached s) @ [c]" and
    nr': "nextRenderer s' = nextRenderer s" and
    ne': "nextElt s' = nextElt s" and
    di': "defaultId s' = defaultId s" and
    dgc': "defaultGraphicsCreated s'" and
    eid': "\<forall>e. eid (elts s' e) = eid (elts s e)" and
    old': "\<forall>r. r \<noteq> g \<longrightarrow> renderers s' r = renderers s r" and
    new': "renderers s' g =
       (renderers s g)\<lparr>rwidth := w, rheight := h,
          calls := calls (renderers s g) @ [CallResize w h, CallApplyDefaults]\<rparr>"
    by blast
  have same: "isMainCanvas (renderers s' e) = isMainCanvas (renderers s e)" for e
    using old' new' by (cases "e = g") simp_all
  have mains': "filter (\<lambda>e. isMainCanvas (renderers s' e)) (elements s') = [g]"
    using mains el' by (simp add: same)
  have "eid (elts s c) = defaultId s"
    using filter_single_holds [OF ids] .
  moreover have "filter (\<lambda>e. eid (elts s e) = defaultId s) (filter (\<lambda>e. e \<noteq> c) (attached s)) = []"
    using ids by (rule filter_single_others)
  ultimately have ids': "filter (\<lambda>e. eid (elts s' e) = defaultId s') (attached s') = [c]"
    using at' eid' di' by simp
  have cin: "c \<in> set (attached s)"
  proof -
    have "c \<in> set (filter (\<lambda>e. eid (elts s e) = defaultId s) (attached s))"
      using ids by simp
    then show ?thesis by simp
  qed
  have al': "allocated s'"
    using al cin el' at' nr' ne' by (auto simp: allocated_def list_all_iff)
  have "default_wf s'"
    by (rule default_wfI [OF r' cv' dgc' _ mains' ids' al']) (simp add: new' own)
  with res show ?thesis by blast
qed

lemma fresh_2d_first:
  assumes fr: "fresh s" and req: "requested K arg \<noteq> WEBGL K"
  shows "\<exists>g' s'. createCanvas K H w h arg s = Inr (g', s') \<and> default_wf s'"
proof -
  from fr have ndgc: "\<not> defaultGraphicsCreated s"
    and mains: "filter (\<lambda>e. isMainCanvas (renderers s e)) (elements s) = []"
    and al: "allocated s"
    by (simp_all add: fresh_def)
  let ?s1 = "snd (createElement s)"
  from createCanvas_2d_first [OF req ndgc, of H w h] obtain s' where
    res: "createCanvas K H w h arg s = Inr (nextRenderer s, s')" and
    r': "renderer s' = Some (nextRenderer s)" and
    cv': "canvas s' = Some (nextElt s)" and
    el': "elements s' = elements s @ [nextRenderer s]" and
    at': "attached s' = filter (\<lambda>e. e \<noteq> nextElt s) (attached s) @ [nextElt s]" and
    nr': "nextRenderer s' = Suc (nextRenderer s)" and
    ne': "nextElt s' = Suc (nextElt s)" and
    di': "defaultId s' = defaultCanvas (scan_default_id ?s1 0)" and
    dgc': "defaultGraphicsCreated s'" and
    eid': "\<forall>e. eid (elts s' e) = (if e = nextElt s then defaultId s' else eid (elts s e))" and
    old': "\<forall>r. r \<noteq> nextRenderer s \<longrightarrow> renderers s' r = renderers s r" and
    new': "renderers s' (nextRenderer s) =
       \<lparr>variant = Renderer2D, isMainCanvas = True, elt = nextElt s, rwidth = w, rheight = h,
        activeMode = None, calls = [CallResize w h, CallApplyDefaults]\<rparr>"
    by blast
  have bound_r: "\<forall>e \<in> set (elements s). e < nextRenderer s"
    using al by (simp add: allocated_def list_all_iff)
  have bound_e: "\<forall>e \<in> set (attached s). e < nextElt s"
    using al by (simp add: allocated_def list_all_iff)
  have "filter (\<lambda>e. isMainCanvas (renderers s' e)) (elements s) = []"
  proof -
    have "\<forall>x \<in> set (elements s). \<not> isMainCanvas (renderers s' x)"
    proof
      fix x assume x: "x \<in> set (elements s)"
      then have "x \<noteq> nextRenderer s" using bound_r by auto
      then have "renderers s' x = renderers s x" using old' by simp
      moreover have "\<not> isMainCanvas (renderers s x)"
        using mains x by (simp add: filter_empty_conv)
      ultimately show "\<not> isMainCanvas (renderers s' x)" by simp
    qed
    then show ?thesis by (simp only: filter_empty_conv)
  qed
  then have mains': "filter (\<lambda>e. isMainCanvas (renderers s' e)) (elements s') = [nextRenderer s]"
    using el' new' by simp
  have unused: "getElementById ?s1 (defaultCanvas (scan_default_id ?s1 0)) = None"
    using scan_default_id_spec [of 0 ?s1] by simp
  have "filter (\<lambda>e. eid (elts s' e) = defaultId s') (filter (\<lambda>e. e \<noteq> nextElt s) (attached s)) = []"
  proof -
    have "\<forall>x \<in> set (filter (\<lambda>e. e \<noteq> nextElt s) (attached s)). \<not> eid (elts s' x) = defaultId s'"
    proof
      fix x assume x: "x \<in> set (filter (\<lambda>e. e \<noteq> nextElt s) (attached s))"
      then have a: "eid (elts s' x) = eid (elts s x)" using eid' by simp
      from x have b: "eid (elts ?s1 x) = eid (elts s x)" by (simp add: createElement_def)
      from x have "x \<in> set (attached ?s1)" by (simp add: createElement_def attached_def)
      with unused have "eid (elts ?s1 x) \<noteq> defaultCanvas (scan_default_id ?s1 0)"
        unfolding getElementById_def find_None_iff by blast
      with a b di' show "\<not> eid (elts s' x) = defaultId s'" by simp
    qed
    then show ?thesis by (simp only: filter_empty_conv)
  qed
  then have ids': "filter (\<lambda>e. eid (elts s' e) = defaultId s') (attached s') = [nextElt s]"
    using at' eid' by simp
  have al': "allocated s'"
    using bound_r bound_e el' at' nr' ne'
    by (auto simp: allocated_def list_all_iff)
  have "default_wf s'"
    by (rule default_wfI [OF r' cv' dgc' _ mains' ids' al']) (simp add: new')
  with res show ?thesis by blast
qed

lemma default_wf_createCanvas:
  assumes "default_wf s"
  shows "\<exists>g' s'. createCanvas K H w h arg s = Inr (g', s') \<and> default_wf s'"
  using assms default_wf_webgl default_wf_2d_again by (cases "requested K arg = WEBGL K") blast+

lemma default_wf_createCanvas_seq:
  "default_wf s \<Longrightarrow> \<exists>s'. createCanvas_seq K H cs s = Inr s' \<and> default_wf s'"
proof (induction cs arbitrary: s)
  case Nil
  then show ?case by simp
next
  case (Cons call cs)
  obtain w h arg where call: "call = (w, h, arg)" by (cases call) auto
  from default_wf_createCanvas [OF Cons.prems, of K H w h arg] obtain g' s1 where
    step: "createCanvas K H w h arg s = Inr (g', s1)" and wf1: "default_wf s1" by blast
  from Cons.IH [OF wf1] obtain s' where "createCanvas_seq K H cs s1 = Inr s'" "default_wf s'"
    by blast
  with step call show ?case by simp
qed


lemma webgl_replaces_default:
  assumes wf: "default_wf s" and r: "renderer s = Some g" and cv: "canvas s = Some c"
    and req: "requested K arg = WEBGL K"
  shows "\<exists>s1 s'. createCanvas_surface K (WEBGL K) s = Inr (Some (nextElt s), s1) \<and>
     c \<notin> set (attached s1) \<and> nextElt s \<notin> set (attached s1) \<and> g \<notin> set (elements s1) \<and>
     createCanvas K H w h arg s = Inr (nextRenderer s, s') \<and>
     g \<noteq> nextRenderer s \<and> c \<noteq> nextElt s \<and>
     renderer s' = Some (nextRenderer s) \<and> canvas s' = Some (nextElt s) \<and>
     elements s' = filter (\<lambda>e. e \<noteq> g) (elements s) @ [nextRenderer s] \<and>
     length (elements s') = length (elements s) \<and>
     attached s' = filter (\<lambda>e. e \<noteq> c) (attached s) @ [nextElt s] \<and>
     variant (renderers s' (nextRenderer s)) = RendererGL \<and>
     filter (\<lambda>e. isMainCanvas (renderers s' e)) (elements s') = [nextRenderer s]"
proof -
  from wf r cv have
    mains: "filter (\<lambda>e. isMainCanvas (renderers s e)) (elements s) = [g]" and
    ids: "filter (\<lambda>e. eid (elts s e) = defaultId s) (attached s) = [c]" and
    al: "allocated s"
    by (auto elim!: default_wfD)
  have found: "getElementById s (defaultId s) = Some c"
    using ids by (rule default_wf_getElementById)
  have bound_r: "\<forall>e \<in> set (elements s). e < nextRenderer s"
    using al by (simp add: allocated_def list_all_iff)
  have bound_e: "\<forall>e \<in> set (attached s). e < nextElt s"
    using al by (simp add: allocated_def list_all_iff)
  have "g \<in> set (filter (\<lambda>e. isMainCanvas (renderers s e)) (elements s))"
    using mains by simp
  then have gin: "g \<in> set (elements s)" by simp
  have "c \<in> set (filter (\<lambda>e. eid (elts s e) = defaultId s) (attached s))"
    using ids by simp
  then have cin: "c \<in> set (attached s)" by simp
  have gne: "g \<noteq> nextRenderer s" using gin bound_r by auto
  have cne: "c \<noteq> nextElt s" using cin bound_e by auto
  let ?s1 = "set_id_class (nextElt s) (defaultId s)
            (snd (createElement
               ((removeChild c s)\<lparr>elements := filter (\<lambda>e. Some e \<noteq> renderer s) (elements s)\<rparr>)))"
  have surf: "createCanvas_surface K (WEBGL K) s = Inr (Some (nextElt s), ?s1)"
    using found by (rule createCanvas_surface_webgl)
  have at1: "attached ?s1 = filter (\<lambda>e. e \<noteq> c) (attached s)"
    by (simp add: set_id_class_def createElement_def removeChild_def attached_def Let_def
        filter_map comp_def)
  have el1: "elements ?s1 = filter (\<lambda>e. e \<noteq> g) (elements s)"
    using r by (simp add: set_id_class_def createElement_def removeChild_def Let_def)
  have p1: "c \<notin> set (attached ?s1)" by (simp add: at1)
  have p2: "nextElt s \<notin> set (attached ?s1)" using bound_e by (auto simp: at1)
  have p3: "g \<notin> set (elements ?s1)" by (simp add: el1)
  from createCanvas_webgl [OF req found, of H w h] obtain s' where
    res: "createCanvas K H w h arg s = Inr (nextRenderer s, s')" and
    r': "renderer s' = Some (nextRenderer s)" and
    cv': "canvas s' = Some (nextElt s)" and
    el': "elements s' = filter (\<lambda>e. Some e \<noteq> renderer s) (elements s) @ [nextRenderer s]" and
    at': "attached s' = filter (\<lambda>e. e \<noteq> nextElt s) (filter (\<lambda>e. e \<noteq> c) (attached s)) @ [nextElt s]" and
    new': "renderers s' (nextRenderer s) =
       \<lparr>variant = RendererGL, isMainCanvas = True, elt = nextElt s, rwidth = w, rheight = h,
        activeMode = None, calls = [CallResize w h, CallApplyDefaults]\<rparr>"
    by blast
  from default_wf_webgl [OF wf req, of H w h] res have "default_wf s'" by auto
  with r' have mains': "filter (\<lambda>e. isMainCanvas (renderers s' e)) (elements s') = [nextRenderer s]"
    by (auto elim!: default_wfD)
  have el'': "elements s' = filter (\<lambda>e. e \<noteq> g) (elements s) @ [nextRenderer s]"
    using el' r by simp
  have len: "length (elements s') = length (elements s)"
    using filter_single_count [OF mains] by (simp add: el'')
  have "filter (\<lambda>e. e \<noteq> nextElt s) (filter (\<lambda>e. e \<noteq> c) (attached s)) = filter (\<lambda>e. e \<noteq> c) (attached s)"
    using bound_e by (simp only: filter_id_conv) auto
  with at' have at'': "attached s' = filter (\<lambda>e. e \<noteq> c) (attached s) @ [nextElt s]" by simp
  have var: "variant (renderers s' (nextRenderer s)) = RendererGL" by (simp add: new')
  from surf p1 p2 p3 res gne cne r' cv' el'' len at'' var mains' show ?thesis by blast
qed

lemma createElement_getElementById:
  assumes "nextElt s \<notin> set (attached s)"
  shows "getElementById (snd (createElement s)) i = getElementById s i"
proof -
  have "find (\<lambda>e. eid (elts (snd (createElement s)) e) = i) (attached s) =
        find (\<lambda>e. eid (elts s e) = i) (attached s)"
    using assms by (intro find_cong) (auto simp: createElement_def)
  then show ?thesis by (simp add: getElementById_def attached_def createElement_def)
qed

lemma toString_0: "toString 0 = ''0''"
  by code_simp

lemma scan_empty_doc: "doc s = [] \<Longrightarrow> scan_default_id s i = i"
  by (subst scan_default_id.simps) (simp add: getElementById_def attached_def)

lemmas createCanvas_defs =
  createCanvas_def createCanvas_surface_def createCanvas_hide_def
  createCanvas_attach_def createCanvas_init_def createCanvas_finish_def
  createElement_def set_id_class_def new_Renderer_def Renderer_resize_def
  Renderer_applyDefaults_def Let_def appendChild_def removeChild_def requested_def
  getElementById_def parentNode_def attached_def defaultClass_def defaultCanvas_def

lemmas sample_defs =
  K0_def H0_def canvas_defaults_def sketch0_def sketch1_def sketch2_def
  blank_element_def blank_renderer_def

lemma sketch0_createCanvas: "createCanvas K0 H0 100 100 None sketch0 = Inr (0, sketch1)"
  by (simp add: createCanvas_defs sample_defs toString_0 scan_empty_doc)

lemma sketch1_createCanvas: "createCanvas K0 H0 100 100 (Some ''webgl'') sketch1 = Inr (1, sketch2)"
  by (simp add: createCanvas_defs sample_defs fun_upd_twist)

lemma sketch0_fresh: "fresh sketch0"
  by (simp add: fresh_def allocated_def attached_def sketch0_def)

lemma sketch1_wf: "default_wf sketch1"
  by (simp add: default_wf_def allocated_def attached_def sketch1_def)

lemma sketch2_wf: "default_wf sketch2"
  by (simp add: default_wf_def allocated_def attached_def sketch1_def sketch2_def)

lemma toString_1: "toString (Suc 0) = ''1''"
  by code_simp

lemma sketch2_createCanvas: "createCanvas K0 H0 50 50 (Some ''p2d'') sketch2 = Inr (1, sketch3)"
  by (simp add: createCanvas_defs sample_defs sketch3_def)

lemma sketch0_seq:
  "createCanvas_seq K0 H0 [(100, 100, None), (100, 100, Some ''webgl'')] sketch0 = Inr sketch2"
  by (simp add: sketch0_createCanvas sketch1_createCanvas)

lemma webgl_first_two_defaults:
  "\<exists>s. createCanvas_seq K0 H0 [(100, 100, Some ''webgl''), (100, 100, None)] sketch0 = Inr s \<and>
       filter (\<lambda>e. isMainCanvas (renderers s e)) (elements s) = [0, 1]"
  by (simp add: createCanvas_defs sample_defs toString_0 toString_1 scan_empty_doc
      scan_default_id.simps [of _ 0] scan_default_id.simps [of _ "Suc 0"])

lemma save_props_map_of:
  "map_of (save_props ctx keys saved) k =
     (if k \<in> set keys \<and> typeof (get_prop ctx k) \<noteq> ''object'' \<and>
         typeof (get_prop ctx k) \<noteq> ''function''
      then Some (get_prop ctx k) else map_of saved k)"
  by (induction keys arbitrary: saved) (auto simp: Let_def update_conv')

lemma save_props_distinct:
  "distinct (map fst saved) \<Longrightarrow> distinct (map fst (save_props ctx keys saved))"
  by (induction keys arbitrary: saved) (auto simp: Let_def distinct_update)

lemma restore_props_readonly: "readonly (restore_props al ctx) = readonly ctx"
  by (induction al arbitrary: ctx) (auto simp: set_prop_def)

lemma restore_props_map_of:
  "distinct (map fst al) \<Longrightarrow>
   map_of (props (restore_props al ctx)) k =
     (if k \<in> set (readonly ctx) then map_of (props ctx) k
      else (case map_of al k of None \<Rightarrow> map_of (props ctx) k | Some v \<Rightarrow> Some v))"
proof (induction al arbitrary: ctx)
  case Nil
  then show ?case by simp
next
  case (Cons kv rest)
  obtain k' v' where kv: "kv = (k', v')" by (cases kv)
  from Cons.prems kv have d: "distinct (map fst rest)" and fresh_key: "k' \<notin> fst ` set rest"
    by simp_all
  from fresh_key have none: "map_of rest k' = None" by (simp add: map_of_eq_None_iff)
  show ?case
  proof (cases "k' \<in> set (readonly ctx)")
    case True
    then have "restore_props (kv # rest) ctx = restore_props rest ctx"
      by (simp add: kv set_prop_def)
    with Cons.IH [OF d, of ctx] True show ?thesis
      by (auto simp: kv)
  next
    case False
    let ?ctx' = "ctx\<lparr>props := AList.update k' v' (props ctx)\<rparr>"
    from False have "restore_props (kv # rest) ctx = restore_props rest ?ctx'"
      by (simp add: kv set_prop_def)
    with Cons.IH [OF d, of ?ctx'] False none show ?thesis
      by (auto simp: kv update_conv' split: option.splits)
  qed
qed

lemmas createGraphics_defs =
  createGraphics_def new_Graphics_def createElement_def new_Renderer_def
  Renderer_resize_def Renderer_applyDefaults_def appendChild_def Let_def

lemma sketch1_noCanvas: "noCanvas sketch1 = Inr sketch1_detached"
  by (simp add: noCanvas_def parentNode_def removeChild_def sketch1_detached_def sketch1_def)

lemma sketch1_detached_createCanvas:
  "createCanvas K0 H0 100 100 (Some ''webgl'') sketch1_detached = Inr (1, sketch_two_defaults)"
  by (simp add: createCanvas_defs sample_defs sketch1_detached_def sketch_two_defaults_def
      fun_upd_twist)

lemma sketch1_createCanvas_again:
  "createCanvas K0 H0 640 480 None sketch1 = Inr (0, sketch1_again)"
  by (simp add: createCanvas_defs sample_defs sketch1_again_def)

lemma sketch1_createGraphics:
  "createGraphics K0 H0 50 50 None sketch1 = (1, sketch1_graphics)"
  by (simp add: createGraphics_defs requested_def sample_defs sketch1_graphics_def
      split: option.splits)

section \<open>Properties\<close>

subsection \<open>blendMode\<close>

text \<open>
  C5. A mode that is none of the fourteen valid tokens and not the legacy alias NORMAL
  makes \<^verbatim>\<open>blendMode\<close> throw an error whose message quotes the mode, and the state at
  the throw is the state before the call: nothing was forwarded to the renderer.
\<close>

theorem blendMode_unrecognized:
  "m \<notin> set (valid_modes K) \<Longrightarrow> m \<noteq> NORMAL K \<Longrightarrow>
     blendMode K m s = Inl (Error (''Mode '' @ m @ '' not recognized.''), s)"
  by (simp add: blendMode_def valid_modes_def)

theorem blendMode_unrecognized_witness:
  "''bogus'' \<notin> set (valid_modes K0) \<and> ''bogus'' \<noteq> NORMAL K0 \<and>
     blendMode K0 ''bogus'' sketch0 = Inl (Error ''Mode bogus not recognized.'', sketch0)"
proof -
  have a: "''bogus'' \<notin> set (valid_modes K0)" by (simp add: valid_modes_def K0_def)
  have b: "''bogus'' \<noteq> NORMAL K0" by (simp add: K0_def)
  from blendMode_unrecognized [OF a b, of sketch0] a b show ?thesis by simp
qed

text \<open>
  C6. With a renderer present, each of the fourteen valid tokens makes \<^verbatim>\<open>blendMode\<close>
  return after forwarding exactly that token to the renderer, and nothing is printed.
  The legacy alias NORMAL (a token of its own) also returns: the deprecation warning is
  printed and BLEND, not NORMAL, is forwarded.
\<close>

theorem blendMode_forwards:
  assumes "renderer s = Some r"
  shows "length (valid_modes K) = 14 \<and>
     (\<forall>m \<in> set (valid_modes K). \<exists>s'. blendMode K m s = Inr s' \<and>
        calls (renderers s' r) = calls (renderers s r) @ [CallBlendMode m] \<and>
        activeMode (renderers s' r) = Some m \<and> console s' = console s) \<and>
     (NORMAL K \<notin> set (valid_modes K) \<longrightarrow>
        (\<exists>s'. blendMode K (NORMAL K) s = Inr s' \<and>
           calls (renderers s' r) = calls (renderers s r) @ [CallBlendMode (BLEND K)] \<and>
           activeMode (renderers s' r) = Some (BLEND K) \<and>
           console s' = console s @ [deprecation_warning]))"
proof (intro conjI ballI impI)
  show "length (valid_modes K) = 14" by (simp add: valid_modes_def)
next
  fix m assume "m \<in> set (valid_modes K)"
  then have "blendMode K m s = Inr (Renderer_blendMode r m s)"
    using assms by (auto simp: blendMode_def valid_modes_def)
  then show "\<exists>s'. blendMode K m s = Inr s' \<and>
        calls (renderers s' r) = calls (renderers s r) @ [CallBlendMode m] \<and>
        activeMode (renderers s' r) = Some m \<and> console s' = console s"
    by (simp add: Renderer_blendMode_def Let_def)
next
  assume "NORMAL K \<notin> set (valid_modes K)"
  then have "blendMode K (NORMAL K) s =
      Inr (Renderer_blendMode r (BLEND K) (s\<lparr>console := console s @ [deprecation_warning]\<rparr>))"
    using assms by (simp add: blendMode_def valid_modes_def Let_def)
  then show "\<exists>s'. blendMode K (NORMAL K) s = Inr s' \<and>
           calls (renderers s' r) = calls (renderers s r) @ [CallBlendMode (BLEND K)] \<and>
           activeMode (renderers s' r) = Some (BLEND K) \<and>
           console s' = console s @ [deprecation_warning]"
    by (simp add: Renderer_blendMode_def Let_def)
qed

theorem blendMode_forwards_witness:
  "renderer sketch1 = Some 0 \<and> MULTIPLY K0 \<in> set (valid_modes K0) \<and>
   NORMAL K0 \<notin> set (valid_modes K0) \<and>
   (\<exists>s'. blendMode K0 (MULTIPLY K0) sketch1 = Inr s' \<and>
      calls (renderers s' 0) = [CallResize 100 100, CallApplyDefaults, CallBlendMode ''multiply''] \<and>
      activeMode (renderers s' 0) = Some ''multiply'') \<and>
   (\<exists>s'. blendMode K0 (NORMAL K0) sketch1 = Inr s' \<and>
      calls (renderers s' 0) = [CallResize 100 100, CallApplyDefaults, CallBlendMode ''source-over''] \<and>
      activeMode (renderers s' 0) = Some ''source-over'' \<and>
      console s' = [deprecation_warning])"
proof -
  have r: "renderer sketch1 = Some 0" by (simp add: sketch1_def)
  have a: "MULTIPLY K0 \<in> set (valid_modes K0)" by (simp add: valid_modes_def)
  have b: "NORMAL K0 \<notin> set (valid_modes K0)" by (simp add: valid_modes_def K0_def)
  have c: "calls (renderers sketch1 0) = [CallResize 100 100, CallApplyDefaults]"
    "console sketch1 = []" "MULTIPLY K0 = ''multiply''" "BLEND K0 = ''source-over''"
    by (simp_all add: sketch1_def K0_def)
  from blendMode_forwards [OF r, of K0] a b c r show ?thesis by auto
qed

text \<open>
  C10. Without a renderer, \<^verbatim>\<open>blendMode\<close> called with a valid token or with NORMAL
  throws a TypeError: lines 319 and 325 dereference \<^verbatim>\<open>this._renderer\<close> unguarded.
  \<^verbatim>\<open>resizeCanvas\<close> returns silently in the same state (guard of line 148), and so
  does \<^verbatim>\<open>noCanvas\<close> when there is no default surface (guard of line 192).
\<close>

theorem blendMode_needs_renderer:
  assumes "renderer s = None" and "m \<in> set (valid_modes K) \<or> m = NORMAL K"
  shows "(\<exists>s'. blendMode K m s = Inl (TypeError, s')) \<and>
     resizeCanvas H w h noRedraw s = Inr s \<and>
     (canvas s = None \<longrightarrow> noCanvas s = Inr s)"
  using assms
  by (auto simp: blendMode_def valid_modes_def resizeCanvas_def noCanvas_def Let_def)

theorem blendMode_needs_renderer_witness:
  "renderer sketch0 = None \<and> BLEND K0 \<in> set (valid_modes K0) \<and> canvas sketch0 = None \<and>
   (\<exists>s'. blendMode K0 (BLEND K0) sketch0 = Inl (TypeError, s')) \<and>
   resizeCanvas H0 200 200 False sketch0 = Inr sketch0 \<and>
   noCanvas sketch0 = Inr sketch0"
proof -
  have r: "renderer sketch0 = None" and c: "canvas sketch0 = None"
    by (simp_all add: sketch0_def)
  have a: "BLEND K0 \<in> set (valid_modes K0)" by (simp add: valid_modes_def)
  then have b: "BLEND K0 \<in> set (valid_modes K0) \<or> BLEND K0 = NORMAL K0" ..
  from blendMode_needs_renderer [OF r b, of H0 200 200 False] r c a show ?thesis by simp
qed

subsection \<open>noCanvas\<close>

text \<open>
  C3. The first \<^verbatim>\<open>noCanvas()\<close> on an attached default surface detaches it. The
  method leaves \<^verbatim>\<open>this.canvas\<close> set, so the guard of line 192 passes again on the
  second call, where \<^verbatim>\<open>parentNode\<close> is now \<^verbatim>\<open>null\<close>: the second call throws a
  TypeError instead of doing nothing.
\<close>

theorem noCanvas_second_call_throws:
  assumes "canvas s = Some c" and "c \<in> set (attached s)"
  shows "\<exists>s1. noCanvas s = Inr s1 \<and> c \<notin> set (attached s1) \<and> canvas s1 = Some c \<and>
     noCanvas s1 = Inl (TypeError, s1)"
proof -
  from assms(2) obtain pe where "pe \<in> set (doc s)" "snd pe = c"
    by (auto simp: attached_def)
  then have "find (\<lambda>pe. snd pe = c) (doc s) \<noteq> None"
    unfolding find_None_iff by blast
  then obtain p where p: "parentNode s c = Some p" by (auto simp: parentNode_def)
  have first: "noCanvas s = Inr (removeChild c s)"
    using assms(1) p by (simp add: noCanvas_def)
  have gone: "c \<notin> set (attached (removeChild c s))"
    by (simp add: attached_removeChild)
  have cv: "canvas (removeChild c s) = Some c"
    using assms(1) by (simp add: removeChild_def)
  have "find (\<lambda>pe. snd pe = c) (doc (removeChild c s)) = None"
    unfolding find_None_iff by (simp add: removeChild_def)
  then have "parentNode (removeChild c s) c = None" by (simp add: parentNode_def)
  with cv have "noCanvas (removeChild c s) = Inl (TypeError, removeChild c s)"
    by (simp add: noCanvas_def)
  with first gone cv show ?thesis by blast
qed

theorem noCanvas_second_call_throws_witness:
  "createCanvas K0 H0 100 100 None sketch0 = Inr (0, sketch1) \<and>
   canvas sketch1 = Some 0 \<and> 0 \<in> set (attached sketch1) \<and>
   (\<exists>s1. noCanvas sketch1 = Inr s1 \<and> 0 \<notin> set (attached s1) \<and> canvas s1 = Some 0 \<and>
      noCanvas s1 = Inl (TypeError, s1))"
proof -
  have a: "canvas sketch1 = Some 0" and b: "0 \<in> set (attached sketch1)"
    by (simp_all add: sketch1_def attached_def)
  from noCanvas_second_call_throws [OF a b] a b sketch0_createCanvas show ?thesis by simp
qed

subsection \<open>createCanvas\<close>

text \<open>
  C7, as the code has it. For all dimensions and either backend, on a sketch whose
  default canvas, if created, is still referenced, \<^verbatim>\<open>createCanvas(w, h, backend)\<close>
  invokes \<^verbatim>\<open>resize(w, h)\<close> and then \<^verbatim>\<open>_applyDefaults()\<close> on the sketch's current
  renderer and returns it, and that renderer reports width \<open>w\<close> and height \<open>h\<close>. When
  Accelerated3D is requested or no default canvas has been created yet, it is the
  renderer the call constructs, of the requested backend, and these two are its only
  calls. When Rasterized2D is requested and the default canvas has been created, the
  call constructs nothing and it is the renderer the sketch had before the call.
\<close>

theorem createCanvas_resizes_and_returns:
  assumes "defaultGraphicsCreated s \<longrightarrow> renderer s \<noteq> None \<and> canvas s \<noteq> None"
  shows "\<exists>g s'. createCanvas K H w h arg s = Inr (g, s') \<and> renderer s' = Some g \<and>
     rwidth (renderers s' g) = w \<and> rheight (renderers s' g) = h \<and>
     (if requested K arg = WEBGL K \<or> \<not> defaultGraphicsCreated s
      then g = nextRenderer s \<and>
           variant (renderers s' g) =
             (if requested K arg = WEBGL K then RendererGL else Renderer2D) \<and>
           calls (renderers s' g) = [CallResize w h, CallApplyDefaults]
      else renderer s = Some g \<and>
           calls (renderers s' g) =
             calls (renderers s g) @ [CallResize w h, CallApplyDefaults])"
proof (cases "requested K arg = WEBGL K")
  case True
  show ?thesis
  proof (cases "getElementById s (defaultId s)")
    case None
    from createCanvas_webgl_first [OF True None, of H w h] True show ?thesis by auto
  next
    case (Some c)
    from createCanvas_webgl [OF True Some, of H w h] True show ?thesis by auto
  qed
next
  case False
  show ?thesis
  proof (cases "defaultGraphicsCreated s")
    case dgc: False
    from createCanvas_2d_first [OF False dgc, of H w h] False dgc show ?thesis by auto
  next
    case dgc: True
    with assms obtain g c where "renderer s = Some g" "canvas s = Some c" by auto
    from createCanvas_2d_again [OF False dgc this, of H w h] False dgc \<open>renderer s = Some g\<close>
    show ?thesis by auto
  qed
qed

theorem createCanvas_resizes_and_returns_witness:
  "(defaultGraphicsCreated sketch1 \<and> renderer sketch1 \<noteq> None \<and> canvas sketch1 \<noteq> None) \<and>
   (\<exists>s'. createCanvas K0 H0 640 480 (Some ''webgl'') sketch1 = Inr (1, s') \<and>
      renderer s' = Some 1 \<and> rwidth (renderers s' 1) = 640 \<and> rheight (renderers s' 1) = 480 \<and>
      variant (renderers s' 1) = RendererGL \<and>
      calls (renderers s' 1) = [CallResize 640 480, CallApplyDefaults]) \<and>
   (\<exists>s'. createCanvas K0 H0 640 480 None sketch1 = Inr (0, s') \<and>
      renderer s' = Some 0 \<and> rwidth (renderers s' 0) = 640 \<and> rheight (renderers s' 0) = 480 \<and>
      calls (renderers s' 0) =
        [CallResize 100 100, CallApplyDefaults, CallResize 640 480, CallApplyDefaults])"
proof -
  have a: "defaultGraphicsCreated sketch1 \<and> renderer sketch1 \<noteq> None \<and> canvas sketch1 \<noteq> None"
    by (simp add: sketch1_def)
  then have h: "defaultGraphicsCreated sketch1 \<longrightarrow> renderer sketch1 \<noteq> None \<and> canvas sketch1 \<noteq> None"
    by simp
  have b: "requested K0 (Some ''webgl'') = WEBGL K0" "requested K0 None \<noteq> WEBGL K0"
    "nextRenderer sketch1 = 1" "renderer sketch1 = Some 0"
    "calls (renderers sketch1 0) = [CallResize 100 100, CallApplyDefaults]"
    by (simp_all add: requested_def K0_def sketch1_def)
  from createCanvas_resizes_and_returns [OF h, of K0 H0 640 480 "Some ''webgl''"]
       createCanvas_resizes_and_returns [OF h, of K0 H0 640 480 None] a b
  show ?thesis by auto
qed

text \<open>
  C7 as stated fails where it says the call acts on the renderer it constructs: on a
  sketch whose default canvas exists, \<^verbatim>\<open>createCanvas(640, 480)\<close> allocates no
  renderer, touches only the renderer that was current before the call, and returns it.
\<close>

theorem createCanvas_2d_again_constructs_nothing:
  "defaultGraphicsCreated sketch1 \<and> renderer sketch1 = Some 0 \<and>
   requested K0 None = P2D K0 \<and> P2D K0 \<noteq> WEBGL K0 \<and>
   createCanvas K0 H0 640 480 None sketch1 = Inr (0, sketch1_again) \<and>
   nextRenderer sketch1_again = nextRenderer sketch1 \<and>
   0 < nextRenderer sketch1 \<and>
   renderers sketch1_again = (renderers sketch1)(0 := renderers sketch1_again 0)"
proof -
  have "defaultGraphicsCreated sketch1" "renderer sketch1 = Some 0"
    "requested K0 None = P2D K0" "P2D K0 \<noteq> WEBGL K0"
    "nextRenderer sketch1_again = nextRenderer sketch1" "0 < nextRenderer sketch1"
    "renderers sketch1_again = (renderers sketch1)(0 := renderers sketch1_again 0)"
    by (simp_all add: sketch1_def sketch1_again_def requested_def K0_def)
  with sketch1_createCanvas_again show ?thesis by blast
qed

text \<open>
  C8. A Rasterized2D request on a sketch whose default canvas exists allocates no
  surface and constructs no renderer: surface, surface id, renderer and registry are the
  ones before the call, and of the renderers only the existing one changes, by the
  resize (and the defaults applied after it). A Rasterized2D request on a sketch without
  default canvas allocates a surface whose id is \<^verbatim>\<open>defaultCanvas\<close> followed by the least
  index, counted from 0, that no attached surface carries.
\<close>

theorem createCanvas_2d_reuses_surface:
  "(defaultGraphicsCreated s \<and> renderer s = Some g \<and> canvas s = Some c \<and>
    requested K arg \<noteq> WEBGL K \<longrightarrow>
      (\<exists>s'. createCanvas K H w h arg s = Inr (g, s') \<and>
         nextElt s' = nextElt s \<and> nextRenderer s' = nextRenderer s \<and>
         canvas s' = Some c \<and> eid (elts s' c) = eid (elts s c) \<and>
         defaultId s' = defaultId s \<and> c \<in> set (attached s') \<and>
         renderer s' = Some g \<and> elements s' = elements s \<and>
         (\<forall>r. r \<noteq> g \<longrightarrow> renderers s' r = renderers s r) \<and>
         renderers s' g =
           (renderers s g)\<lparr>rwidth := w, rheight := h,
              calls := calls (renderers s g) @ [CallResize w h, CallApplyDefaults]\<rparr>)) \<and>
   (\<not> defaultGraphicsCreated s \<and> nextElt s \<notin> set (attached s) \<and>
    requested K arg \<noteq> WEBGL K \<longrightarrow>
      (\<exists>i s'. createCanvas K H w h arg s = Inr (nextRenderer s, s') \<and>
         canvas s' = Some (nextElt s) \<and> nextElt s' = Suc (nextElt s) \<and>
         eid (elts s' (nextElt s)) = defaultCanvas i \<and> defaultId s' = defaultCanvas i \<and>
         getElementById s (defaultCanvas i) = None \<and>
         (\<forall>j. j < i \<longrightarrow> getElementById s (defaultCanvas j) \<noteq> None)))"
proof (intro conjI impI)
  assume a: "defaultGraphicsCreated s \<and> renderer s = Some g \<and> canvas s = Some c \<and>
    requested K arg \<noteq> WEBGL K"
  then have req: "requested K arg \<noteq> WEBGL K" and dgc: "defaultGraphicsCreated s"
    and r: "renderer s = Some g" and cv: "canvas s = Some c" by simp_all
  from createCanvas_2d_again [OF req dgc r cv, of H w h] obtain s' where
    s': "createCanvas K H w h arg s = Inr (g, s')" "renderer s' = Some g"
      "canvas s' = Some c" "elements s' = elements s"
      "attached s' = filter (\<lambda>e. e \<noteq> c) (attached s) @ [c]"
      "nextRenderer s' = nextRenderer s" "nextElt s' = nextElt s" "defaultId s' = defaultId s"
      "\<forall>e. eid (elts s' e) = eid (elts s e)"
      "\<forall>r. r \<noteq> g \<longrightarrow> renderers s' r = renderers s r"
      "renderers s' g =
         (renderers s g)\<lparr>rwidth := w, rheight := h,
            calls := calls (renderers s g) @ [CallResize w h, CallApplyDefaults]\<rparr>"
    by blast
  have "c \<in> set (attached s')" by (simp add: s'(5))
  with s' show "\<exists>s'. createCanvas K H w h arg s = Inr (g, s') \<and>
         nextElt s' = nextElt s \<and> nextRenderer s' = nextRenderer s \<and>
         canvas s' = Some c \<and> eid (elts s' c) = eid (elts s c) \<and>
         defaultId s' = defaultId s \<and> c \<in> set (attached s') \<and>
         renderer s' = Some g \<and> elements s' = elements s \<and>
         (\<forall>r. r \<noteq> g \<longrightarrow> renderers s' r = renderers s r) \<and>
         renderers s' g =
           (renderers s g)\<lparr>rwidth := w, rheight := h,
              calls := calls (renderers s g) @ [CallResize w h, CallApplyDefaults]\<rparr>"
    by blast
next
  assume a: "\<not> defaultGraphicsCreated s \<and> nextElt s \<notin> set (attached s) \<and>
    requested K arg \<noteq> WEBGL K"
  then have req: "requested K arg \<noteq> WEBGL K" and dgc: "\<not> defaultGraphicsCreated s"
    and un: "nextElt s \<notin> set (attached s)" by simp_all
  let ?s1 = "snd (createElement s)"
  let ?i = "scan_default_id ?s1 0"
  from createCanvas_2d_first [OF req dgc, of H w h] obtain s' where
    s': "createCanvas K H w h arg s = Inr (nextRenderer s, s')"
      "canvas s' = Some (nextElt s)" "nextElt s' = Suc (nextElt s)"
      "defaultId s' = defaultCanvas ?i"
      "\<forall>e. eid (elts s' e) = (if e = nextElt s then defaultId s' else eid (elts s e))"
    by blast
  have same: "getElementById ?s1 x = getElementById s x" for x
    using un by (rule createElement_getElementById)
  from scan_default_id_spec [of 0 ?s1]
  have sp: "getElementById s (defaultCanvas ?i) = None"
    "\<forall>j. j < ?i \<longrightarrow> getElementById s (defaultCanvas j) \<noteq> None"
    by (simp_all add: same)
  have "eid (elts s' (nextElt s)) = defaultCanvas ?i" using s'(4,5) by simp
  with s' sp show "\<exists>i s'. createCanvas K H w h arg s = Inr (nextRenderer s, s') \<and>
         canvas s' = Some (nextElt s) \<and> nextElt s' = Suc (nextElt s) \<and>
         eid (elts s' (nextElt s)) = defaultCanvas i \<and> defaultId s' = defaultCanvas i \<and>
         getElementById s (defaultCanvas i) = None \<and>
         (\<forall>j. j < i \<longrightarrow> getElementById s (defaultCanvas j) \<noteq> None)"
    by blast
qed

theorem createCanvas_2d_reuses_surface_witness:
  "(defaultGraphicsCreated sketch1 \<and> renderer sketch1 = Some 0 \<and> canvas sketch1 = Some 0 \<and>
    requested K0 None \<noteq> WEBGL K0) \<and>
   (\<exists>s'. createCanvas K0 H0 300 200 None sketch1 = Inr (0, s') \<and>
      nextElt s' = 1 \<and> nextRenderer s' = 1 \<and> canvas s' = Some 0 \<and>
      eid (elts s' 0) = ''defaultCanvas0'' \<and> elements s' = [0] \<and>
      rwidth (renderers s' 0) = 300 \<and> rheight (renderers s' 0) = 200) \<and>
   (\<not> defaultGraphicsCreated sketch_taken \<and> nextElt sketch_taken \<notin> set (attached sketch_taken)) \<and>
   (\<exists>s'. createCanvas K0 H0 100 100 None sketch_taken = Inr (0, s') \<and>
      canvas s' = Some 1 \<and> eid (elts s' 1) = ''defaultCanvas1'' \<and>
      defaultId s' = ''defaultCanvas1'')"
proof -
  have a: "defaultGraphicsCreated sketch1 \<and> renderer sketch1 = Some 0 \<and>
      canvas sketch1 = Some 0 \<and> requested K0 None \<noteq> WEBGL K0"
    by (simp add: sketch1_def requested_def K0_def)
  have b: "\<not> defaultGraphicsCreated sketch_taken \<and>
      nextElt sketch_taken \<notin> set (attached sketch_taken) \<and> requested K0 None \<noteq> WEBGL K0"
    by (simp add: sketch_taken_def sketch0_def attached_def requested_def K0_def)
  have v: "nextElt sketch1 = 1" "nextRenderer sketch1 = 1" "elements sketch1 = [0]"
    "eid (elts sketch1 0) = ''defaultCanvas0''"
    "nextElt sketch_taken = 1" "nextRenderer sketch_taken = 0"
    by (simp_all add: sketch1_def sketch_taken_def sketch0_def)
  have slot0: "getElementById sketch_taken (defaultCanvas 0) = Some 0"
    by (simp add: getElementById_def attached_def defaultCanvas_def toString_0
        sketch_taken_def sketch0_def blank_element_def)
  have slot1: "getElementById sketch_taken (defaultCanvas 1) = None"
    by (simp add: getElementById_def attached_def defaultCanvas_def toString_1
        sketch_taken_def sketch0_def blank_element_def)
  from createCanvas_2d_reuses_surface [of sketch1 0 0 K0 None H0 300 200] a
  obtain s' where first: "createCanvas K0 H0 300 200 None sketch1 = Inr (0, s')"
    "nextElt s' = nextElt sketch1" "nextRenderer s' = nextRenderer sketch1"
    "canvas s' = Some 0" "eid (elts s' 0) = eid (elts sketch1 0)"
    "elements s' = elements sketch1"
    "renderers s' 0 =
       (renderers sketch1 0)\<lparr>rwidth := 300, rheight := 200,
          calls := calls (renderers sketch1 0) @ [CallResize 300 200, CallApplyDefaults]\<rparr>"
    by blast
  from createCanvas_2d_reuses_surface [of sketch_taken 0 0 K0 None H0 100 100] b
  obtain i t' where second:
    "createCanvas K0 H0 100 100 None sketch_taken = Inr (nextRenderer sketch_taken, t')"
    "canvas t' = Some (nextElt sketch_taken)"
    "eid (elts t' (nextElt sketch_taken)) = defaultCanvas i" "defaultId t' = defaultCanvas i"
    "getElementById sketch_taken (defaultCanvas i) = None"
    "\<forall>j. j < i \<longrightarrow> getElementById sketch_taken (defaultCanvas j) \<noteq> None"
    by blast
  have "i \<noteq> 0"
  proof
    assume "i = 0"
    with second(5) slot0 show False by simp
  qed
  moreover have "\<not> 1 < i"
  proof
    assume "1 < i"
    with second(6) have "getElementById sketch_taken (defaultCanvas 1) \<noteq> None" by blast
    with slot1 show False by simp
  qed
  ultimately have "i = 1" by arith
  then have "defaultCanvas i = ''defaultCanvas1''"
    by (simp add: defaultCanvas_def toString_1)
  with first second a b v show ?thesis by auto
qed

text \<open>
  C4, as the code has it. When the default canvas is intact (the current renderer,
  Rasterized2D or not, is the one default renderer of the registry and its surface is
  the attached surface carrying the reserved id) and Accelerated3D is requested, the
  old default surface is detached and its renderer removed from the registry by the end
  of lines 59 to 71, where the replacement surface is not attached yet. The call then
  attaches the new surface and registers exactly one renderer, so the registry is as
  long as before.
\<close>

theorem createCanvas_webgl_replaces_default:
  assumes "default_wf s" and "renderer s = Some g" and "canvas s = Some c"
    and "requested K arg = WEBGL K"
  shows "\<exists>s1 s'. createCanvas_surface K (requested K arg) s = Inr (Some (nextElt s), s1) \<and>
     c \<notin> set (attached s1) \<and> g \<notin> set (elements s1) \<and> nextElt s \<notin> set (attached s1) \<and>
     createCanvas K H w h arg s = Inr (nextRenderer s, s') \<and>
     c \<notin> set (attached s') \<and> nextElt s \<in> set (attached s') \<and> canvas s' = Some (nextElt s) \<and>
     g \<notin> set (elements s') \<and>
     elements s' = filter (\<lambda>e. e \<noteq> g) (elements s) @ [nextRenderer s] \<and>
     length (elements s') = length (elements s)"
proof -
  from webgl_replaces_default [OF assms, of H w h] obtain s1 s' where
    f: "createCanvas_surface K (WEBGL K) s = Inr (Some (nextElt s), s1)"
      "c \<notin> set (attached s1)" "nextElt s \<notin> set (attached s1)" "g \<notin> set (elements s1)"
      "createCanvas K H w h arg s = Inr (nextRenderer s, s')"
      "g \<noteq> nextRenderer s" "c \<noteq> nextElt s" "canvas s' = Some (nextElt s)"
      "elements s' = filter (\<lambda>e. e \<noteq> g) (elements s) @ [nextRenderer s]"
      "length (elements s') = length (elements s)"
      "attached s' = filter (\<lambda>e. e \<noteq> c) (attached s) @ [nextElt s]"
    by blast
  have "c \<notin> set (attached s')" "nextElt s \<in> set (attached s')" "g \<notin> set (elements s')"
    using f(6,7) by (simp_all add: f(9) f(11))
  with f assms(4) show ?thesis by auto
qed

theorem createCanvas_webgl_replaces_default_witness:
  "default_wf sketch1 \<and> renderer sketch1 = Some 0 \<and> canvas sketch1 = Some 0 \<and>
   variant (renderers sketch1 0) = Renderer2D \<and> requested K0 (Some ''webgl'') = WEBGL K0 \<and>
   (\<exists>s1. createCanvas_surface K0 ''webgl'' sketch1 = Inr (Some 1, s1) \<and>
      0 \<notin> set (attached s1) \<and> 0 \<notin> set (elements s1) \<and> 1 \<notin> set (attached s1)) \<and>
   (\<exists>s'. createCanvas K0 H0 100 100 (Some ''webgl'') sketch1 = Inr (1, s') \<and>
      0 \<notin> set (attached s') \<and> 1 \<in> set (attached s') \<and> elements s' = [1] \<and>
      length (elements s') = length (elements sketch1))"
proof -
  have a: "renderer sketch1 = Some 0" "canvas sketch1 = Some 0"
    "variant (renderers sketch1 0) = Renderer2D"
    by (simp_all add: sketch1_def)
  have b: "requested K0 (Some ''webgl'') = WEBGL K0" by (simp add: requested_def K0_def)
  have v: "nextElt sketch1 = 1" "nextRenderer sketch1 = 1" "elements sketch1 = [0]"
    "WEBGL K0 = ''webgl''"
    by (simp_all add: sketch1_def K0_def)
  from createCanvas_webgl_replaces_default [OF sketch1_wf a(1) a(2) b, of H0 100 100]
    sketch1_wf a b v
  show ?thesis by auto
qed

text \<open>
  C4 as stated fails when the Rasterized2D default renderer exists but its surface has
  been detached: after \<^verbatim>\<open>createCanvas(100, 100)\<close> and \<^verbatim>\<open>noCanvas()\<close>, line 60 of
  \<^verbatim>\<open>createCanvas(100, 100, WEBGL)\<close> finds no surface, nothing is removed, and the
  registry grows from one renderer to two.
\<close>

theorem createCanvas_webgl_after_noCanvas_grows:
  "renderer sketch1 = Some 0 \<and> variant (renderers sketch1 0) = Renderer2D \<and>
   isMainCanvas (renderers sketch1 0) \<and> elements sketch1 = [0] \<and>
   noCanvas sketch1 = Inr sketch1_detached \<and>
   renderer sketch1_detached = Some 0 \<and> elements sketch1_detached = [0] \<and>
   requested K0 (Some ''webgl'') = WEBGL K0 \<and>
   createCanvas K0 H0 100 100 (Some ''webgl'') sketch1_detached = Inr (1, sketch_two_defaults) \<and>
   elements sketch_two_defaults = [0, 1] \<and>
   length (elements sketch_two_defaults) = Suc (length (elements sketch1_detached))"
proof -
  have "renderer sketch1 = Some 0" "variant (renderers sketch1 0) = Renderer2D"
    "isMainCanvas (renderers sketch1 0)" "elements sketch1 = [0]"
    "renderer sketch1_detached = Some 0" "elements sketch1_detached = [0]"
    "requested K0 (Some ''webgl'') = WEBGL K0"
    "elements sketch_two_defaults = [0, 1]"
    "length (elements sketch_two_defaults) = Suc (length (elements sketch1_detached))"
    by (simp_all add: sketch1_def sketch1_detached_def sketch_two_defaults_def sketch2_def
        requested_def K0_def)
  with sketch1_noCanvas sketch1_detached_createCanvas show ?thesis by blast
qed

text \<open>
  C2, as the code has it. After the default canvas has been created by a first
  Rasterized2D request, every sequence of \<^verbatim>\<open>createCanvas\<close> calls returns and leaves
  at most one renderer flagged default in the registry. In the state reached, a request
  for Accelerated3D detaches the default surface and removes the previous default
  renderer from the registry before the new surface is attached and the new renderer
  registered; a request for Rasterized2D constructs nothing and returns the existing
  default renderer with its backend unchanged, whichever backend that is.
\<close>

theorem createCanvas_one_default:
  assumes fr: "fresh s0" and first: "requested K arg0 \<noteq> WEBGL K"
  shows "\<exists>s g c. createCanvas_seq K H ((w0, h0, arg0) # cs) s0 = Inr s \<and>
     length (filter (\<lambda>e. isMainCanvas (renderers s e)) (elements s)) \<le> 1 \<and>
     renderer s = Some g \<and> canvas s = Some c \<and>
     (\<forall>w h arg. requested K arg = WEBGL K \<longrightarrow>
        (\<exists>s1 s'. createCanvas_surface K (WEBGL K) s = Inr (Some (nextElt s), s1) \<and>
           c \<notin> set (attached s1) \<and> g \<notin> set (elements s1) \<and>
           nextElt s \<notin> set (attached s1) \<and>
           createCanvas K H w h arg s = Inr (nextRenderer s, s') \<and>
           g \<noteq> nextRenderer s \<and> g \<notin> set (elements s') \<and> c \<notin> set (attached s') \<and>
           filter (\<lambda>e. isMainCanvas (renderers s' e)) (elements s') = [nextRenderer s])) \<and>
     (\<forall>w h arg. requested K arg \<noteq> WEBGL K \<longrightarrow>
        (\<exists>s'. createCanvas K H w h arg s = Inr (g, s') \<and> renderer s' = Some g \<and>
           elements s' = elements s \<and> nextRenderer s' = nextRenderer s \<and>
           variant (renderers s' g) = variant (renderers s g)))"
proof -
  from fresh_2d_first [OF fr first, of H w0 h0] obtain g1 s1 where
    step: "createCanvas K H w0 h0 arg0 s0 = Inr (g1, s1)" and wf1: "default_wf s1" by blast
  from default_wf_createCanvas_seq [OF wf1, of K H cs] obtain s where
    run: "createCanvas_seq K H cs s1 = Inr s" and wf: "default_wf s" by blast
  from step run have all: "createCanvas_seq K H ((w0, h0, arg0) # cs) s0 = Inr s" by simp
  from wf obtain g c where
    r: "renderer s = Some g" and cv: "canvas s = Some c" and
    dgc: "defaultGraphicsCreated s" and
    mains: "filter (\<lambda>e. isMainCanvas (renderers s e)) (elements s) = [g]"
    by (rule default_wfD)
  have one: "length (filter (\<lambda>e. isMainCanvas (renderers s e)) (elements s)) \<le> 1"
    by (simp add: mains)
  have gl: "\<exists>s1 s'. createCanvas_surface K (WEBGL K) s = Inr (Some (nextElt s), s1) \<and>
           c \<notin> set (attached s1) \<and> g \<notin> set (elements s1) \<and>
           nextElt s \<notin> set (attached s1) \<and>
           createCanvas K H w h arg s = Inr (nextRenderer s, s') \<and>
           g \<noteq> nextRenderer s \<and> g \<notin> set (elements s') \<and> c \<notin> set (attached s') \<and>
           filter (\<lambda>e. isMainCanvas (renderers s' e)) (elements s') = [nextRenderer s]"
    if req: "requested K arg = WEBGL K" for w h arg
  proof -
    from webgl_replaces_default [OF wf r cv req, of H w h] obtain s1 s' where
      f: "createCanvas_surface K (WEBGL K) s = Inr (Some (nextElt s), s1)"
        "c \<notin> set (attached s1)" "nextElt s \<notin> set (attached s1)" "g \<notin> set (elements s1)"
        "createCanvas K H w h arg s = Inr (nextRenderer s, s')"
        "g \<noteq> nextRenderer s" "c \<noteq> nextElt s"
        "elements s' = filter (\<lambda>e. e \<noteq> g) (elements s) @ [nextRenderer s]"
        "attached s' = filter (\<lambda>e. e \<noteq> c) (attached s) @ [nextElt s]"
        "filter (\<lambda>e. isMainCanvas (renderers s' e)) (elements s') = [nextRenderer s]"
      by blast
    have "g \<notin> set (elements s')" "c \<notin> set (attached s')"
      using f(6,7) by (simp_all add: f(8) f(9))
    with f show ?thesis by blast
  qed
  have p2: "\<exists>s'. createCanvas K H w h arg s = Inr (g, s') \<and> renderer s' = Some g \<and>
           elements s' = elements s \<and> nextRenderer s' = nextRenderer s \<and>
           variant (renderers s' g) = variant (renderers s g)"
    if req: "requested K arg \<noteq> WEBGL K" for w h arg
  proof -
    from createCanvas_2d_again [OF req dgc r cv, of H w h] obtain s' where
      f: "createCanvas K H w h arg s = Inr (g, s')" "renderer s' = Some g"
        "elements s' = elements s" "nextRenderer s' = nextRenderer s"
        "renderers s' g =
           (renderers s g)\<lparr>rwidth := w, rheight := h,
              calls := calls (renderers s g) @ [CallResize w h, CallApplyDefaults]\<rparr>"
      by blast
    have "variant (renderers s' g) = variant (renderers s g)" by (simp add: f(5))
    with f show ?thesis by blast
  qed
  from all one r cv gl p2 show ?thesis by blast
qed

theorem createCanvas_one_default_witness:
  "fresh sketch0 \<and> requested K0 None \<noteq> WEBGL K0 \<and>
   createCanvas_seq K0 H0 [(100, 100, None), (100, 100, Some ''webgl'')] sketch0 = Inr sketch2 \<and>
   length (filter (\<lambda>e. isMainCanvas (renderers sketch2 e)) (elements sketch2)) \<le> 1 \<and>
   requested K0 (Some ''webgl'') = WEBGL K0 \<and>
   (\<exists>s'. createCanvas K0 H0 50 50 (Some ''webgl'') sketch2 = Inr (2, s') \<and>
      1 \<notin> set (elements s') \<and> 1 \<notin> set (attached s') \<and>
      filter (\<lambda>e. isMainCanvas (renderers s' e)) (elements s') = [2]) \<and>
   requested K0 (Some ''p2d'') \<noteq> WEBGL K0 \<and>
   (\<exists>s'. createCanvas K0 H0 50 50 (Some ''p2d'') sketch2 = Inr (1, s') \<and>
      renderer s' = Some 1 \<and> elements s' = elements sketch2 \<and>
      variant (renderers s' 1) = RendererGL)"
proof -
  have a: "requested K0 None \<noteq> WEBGL K0" "requested K0 (Some ''webgl'') = WEBGL K0"
    "requested K0 (Some ''p2d'') \<noteq> WEBGL K0"
    by (simp_all add: requested_def K0_def)
  have v: "renderer sketch2 = Some 1" "canvas sketch2 = Some 1" "nextRenderer sketch2 = 2"
    "variant (renderers sketch2 1) = RendererGL"
    by (simp_all add: sketch2_def sketch1_def)
  from createCanvas_one_default [OF sketch0_fresh a(1), of H0 100 100 "[(100, 100, Some ''webgl'')]"]
  obtain s g c where
    f: "createCanvas_seq K0 H0 [(100, 100, None), (100, 100, Some ''webgl'')] sketch0 = Inr s"
      "length (filter (\<lambda>e. isMainCanvas (renderers s e)) (elements s)) \<le> 1"
      "renderer s = Some g" "canvas s = Some c"
      "\<forall>w h arg. requested K0 arg = WEBGL K0 \<longrightarrow>
        (\<exists>s1 s'. createCanvas_surface K0 (WEBGL K0) s = Inr (Some (nextElt s), s1) \<and>
           c \<notin> set (attached s1) \<and> g \<notin> set (elements s1) \<and>
           nextElt s \<notin> set (attached s1) \<and>
           createCanvas K0 H0 w h arg s = Inr (nextRenderer s, s') \<and>
           g \<noteq> nextRenderer s \<and> g \<notin> set (elements s') \<and> c \<notin> set (attached s') \<and>
           filter (\<lambda>e. isMainCanvas (renderers s' e)) (elements s') = [nextRenderer s])"
      "\<forall>w h arg. requested K0 arg \<noteq> WEBGL K0 \<longrightarrow>
        (\<exists>s'. createCanvas K0 H0 w h arg s = Inr (g, s') \<and> renderer s' = Some g \<and>
           elements s' = elements s \<and> nextRenderer s' = nextRenderer s \<and>
           variant (renderers s' g) = variant (renderers s g))"
    by blast
  from f(1) sketch0_seq have s: "s = sketch2" by simp
  with f(3,4) v have gc: "g = 1" "c = 1" by simp_all
  from f(5) a(2) s gc v obtain s' where
    w: "createCanvas K0 H0 50 50 (Some ''webgl'') sketch2 = Inr (2, s')"
      "1 \<notin> set (elements s')" "1 \<notin> set (attached s')"
      "filter (\<lambda>e. isMainCanvas (renderers s' e)) (elements s') = [2]"
    by fastforce
  from f(6) a(3) s gc v obtain t' where
    p: "createCanvas K0 H0 50 50 (Some ''p2d'') sketch2 = Inr (1, t')"
      "renderer t' = Some 1" "elements t' = elements sketch2"
      "variant (renderers t' 1) = RendererGL"
    by fastforce
  from f(1,2) s sketch0_fresh a w p show ?thesis by blast
qed

text \<open>
  C2 as stated fails in the direction Accelerated3D then Rasterized2D: after
  \<^verbatim>\<open>createCanvas(100, 100)\<close> and \<^verbatim>\<open>createCanvas(100, 100, WEBGL)\<close>, the call
  \<^verbatim>\<open>createCanvas(50, 50, P2D)\<close> returns the Accelerated3D renderer, still registered
  and still current, and constructs no renderer.
\<close>

theorem createCanvas_2d_after_webgl_keeps_renderer:
  "createCanvas_seq K0 H0 [(100, 100, None), (100, 100, Some ''webgl'')] sketch0 = Inr sketch2 \<and>
   renderer sketch2 = Some 1 \<and> variant (renderers sketch2 1) = RendererGL \<and>
   requested K0 (Some ''p2d'') = P2D K0 \<and> P2D K0 \<noteq> WEBGL K0 \<and>
   createCanvas K0 H0 50 50 (Some ''p2d'') sketch2 = Inr (1, sketch3) \<and>
   renderer sketch3 = Some 1 \<and> variant (renderers sketch3 1) = RendererGL \<and>
   elements sketch3 = [1] \<and> attached sketch3 = [1] \<and>
   nextRenderer sketch3 = nextRenderer sketch2"
proof -
  have "renderer sketch2 = Some 1" "variant (renderers sketch2 1) = RendererGL"
    "requested K0 (Some ''p2d'') = P2D K0" "P2D K0 \<noteq> WEBGL K0"
    "renderer sketch3 = Some 1" "variant (renderers sketch3 1) = RendererGL"
    "elements sketch3 = [1]" "attached sketch3 = [1]"
    "nextRenderer sketch3 = nextRenderer sketch2"
    by (simp_all add: sketch3_def sketch2_def sketch1_def requested_def K0_def attached_def)
  with sketch0_seq sketch2_createCanvas show ?thesis by blast
qed

subsection \<open>resizeCanvas\<close>

text \<open>
  C1, as the code has it. For every call \<^verbatim>\<open>resizeCanvas(w, h, skipRedraw)\<close> made
  while a renderer exists, saving, resizing and restoring raise nothing and reach a state
  in which the renderer's and the sketch's dimensions are \<open>(w, h)\<close>, every scalar
  property of the context that was set before the call and is not read-only has its
  value of before the call, and every read-only property is as the resize left it (its
  restoration was skipped). With \<open>skipRedraw\<close> set this is the state the call returns;
  otherwise the call hands that state to the redraw pass and its outcome is the outcome
  of the redraw.
\<close>

theorem resizeCanvas_restores:
  assumes "renderer s = Some r"
  shows "\<exists>s3. resizeCanvas H w h noRedraw s = (if noRedraw then Inr s3 else redraw H s3) \<and>
     rwidth (renderers s3 r) = w \<and> rheight (renderers s3 r) = h \<and>
     width s3 = w \<and> height s3 = h \<and>
     (\<forall>k v. map_of (props (drawingContext s)) k = Some v \<and>
            typeof v \<noteq> ''object'' \<and> typeof v \<noteq> ''function'' \<and>
            k \<notin> set (readonly (drawingContext s)) \<longrightarrow>
            map_of (props (drawingContext s3)) k = Some v) \<and>
     (\<forall>k. k \<in> set (readonly (drawingContext s)) \<longrightarrow>
          map_of (props (drawingContext s3)) k =
          map_of (props (drawingContext (Renderer_resize H r w h s))) k)"
proof -
  let ?saved = "save_props (drawingContext s) (map fst (props (drawingContext s))) []"
  let ?s1 = "Renderer_resize H r w h s"
  let ?s2 = "?s1\<lparr>width := w, height := h\<rparr>"
  let ?s3 = "?s2\<lparr>drawingContext := restore_props ?saved (drawingContext ?s2)\<rparr>"
  have res: "resizeCanvas H w h noRedraw s = (if noRedraw then Inr ?s3 else redraw H ?s3)"
    using assms by (simp add: resizeCanvas_def Let_def)
  have dims: "rwidth (renderers ?s3 r) = w" "rheight (renderers ?s3 r) = h"
    "width ?s3 = w" "height ?s3 = h"
    by (simp_all add: Renderer_resize_def Let_def)
  have ro: "readonly (drawingContext ?s1) = readonly (drawingContext s)"
    by (simp add: Renderer_resize_def Let_def)
  have ctx3: "drawingContext ?s3 = restore_props ?saved (drawingContext ?s1)"
    by simp
  have dist: "distinct (map fst ?saved)"
    by (rule save_props_distinct) simp
  have after: "map_of (props (drawingContext ?s3)) k =
     (if k \<in> set (readonly (drawingContext s)) then map_of (props (drawingContext ?s1)) k
      else (case map_of ?saved k of
              None \<Rightarrow> map_of (props (drawingContext ?s1)) k
            | Some v \<Rightarrow> Some v))" for k
    by (simp only: ctx3 restore_props_map_of [OF dist] ro)
  have kept: "map_of (props (drawingContext ?s3)) k = Some v"
    if "map_of (props (drawingContext s)) k = Some v \<and>
        typeof v \<noteq> ''object'' \<and> typeof v \<noteq> ''function'' \<and>
        k \<notin> set (readonly (drawingContext s))" for k v
  proof -
    from that have "(k, v) \<in> set (props (drawingContext s))" by (auto dest: map_of_SomeD)
    then have "k \<in> set (map fst (props (drawingContext s)))" by force
    moreover from that have "get_prop (drawingContext s) k = v" by (simp add: get_prop_def)
    ultimately have sv: "map_of ?saved k = Some v"
      using that by (simp add: save_props_map_of)
    from that have nk: "k \<notin> set (readonly (drawingContext s))" by simp
    show ?thesis by (simp only: after nk if_False sv option.case)
  qed
  have skipped: "map_of (props (drawingContext ?s3)) k = map_of (props (drawingContext ?s1)) k"
    if "k \<in> set (readonly (drawingContext s))" for k
    by (simp only: after that if_True)
  from res dims kept skipped show ?thesis by blast
qed

theorem resizeCanvas_restores_witness:
  "renderer sketch_styled = Some 0 \<and>
   (\<exists>s3. resizeCanvas H2 200 200 True sketch_styled = Inr s3 \<and>
      rwidth (renderers s3 0) = 200 \<and> rheight (renderers s3 0) = 200 \<and>
      width s3 = 200 \<and> height s3 = 200 \<and>
      map_of (props (drawingContext s3)) ''fillStyle'' = Some (JStr ''#ff8800'') \<and>
      map_of (props (drawingContext s3)) ''lineWidth'' = Some (JNum 4) \<and>
      map_of (props (drawingContext s3)) ''drawingBufferWidth'' = Some (JNum 200))"
proof -
  have r: "renderer sketch_styled = Some 0" by (simp add: sketch_styled_def sketch1_def)
  have pre: "map_of (props (drawingContext sketch_styled)) ''fillStyle'' = Some (JStr ''#ff8800'')"
    "map_of (props (drawingContext sketch_styled)) ''lineWidth'' = Some (JNum 4)"
    "''fillStyle'' \<notin> set (readonly (drawingContext sketch_styled))"
    "''lineWidth'' \<notin> set (readonly (drawingContext sketch_styled))"
    "''drawingBufferWidth'' \<in> set (readonly (drawingContext sketch_styled))"
    by (simp_all add: sketch_styled_def)
  have resized: "map_of (props (drawingContext (Renderer_resize H2 0 200 200 sketch_styled)))
      ''drawingBufferWidth'' = Some (JNum 200)"
    by (simp add: Renderer_resize_def Let_def sketch_styled_def sketch1_def H2_def H0_def)
  from resizeCanvas_restores [OF r, of H2 200 200 True] obtain s3 where
    f: "resizeCanvas H2 200 200 True sketch_styled = Inr s3"
      "rwidth (renderers s3 0) = 200" "rheight (renderers s3 0) = 200"
      "width s3 = 200" "height s3 = 200"
      "\<forall>k v. map_of (props (drawingContext sketch_styled)) k = Some v \<and>
            typeof v \<noteq> ''object'' \<and> typeof v \<noteq> ''function'' \<and>
            k \<notin> set (readonly (drawingContext sketch_styled)) \<longrightarrow>
            map_of (props (drawingContext s3)) k = Some v"
      "\<forall>k. k \<in> set (readonly (drawingContext sketch_styled)) \<longrightarrow>
          map_of (props (drawingContext s3)) k =
          map_of (props (drawingContext (Renderer_resize H2 0 200 200 sketch_styled))) k"
    by auto
  from f(6) pre have "map_of (props (drawingContext s3)) ''fillStyle'' = Some (JStr ''#ff8800'')"
    "map_of (props (drawingContext s3)) ''lineWidth'' = Some (JNum 4)"
    by simp_all
  moreover from f(7) pre resized
  have "map_of (props (drawingContext s3)) ''drawingBufferWidth'' = Some (JNum 200)"
    by simp
  ultimately show ?thesis using r f(1-5) by blast
qed

text \<open>
  C1 as stated fails when the redraw pass runs: the client's drawing routine sets the
  stroke, so after \<^verbatim>\<open>resizeCanvas(200, 200)\<close> the stroke differs from its value of
  before the call although it is scalar and writable.
\<close>

theorem resizeCanvas_redraw_overwrites:
  "renderer sketch1 = Some 0 \<and>
   map_of (props (drawingContext sketch1)) ''strokeStyle'' = Some (JStr ''#000000'') \<and>
   typeof (JStr ''#000000'') = ''string'' \<and>
   ''strokeStyle'' \<notin> set (readonly (drawingContext sketch1)) \<and>
   resizeCanvas H1 200 200 False sketch1 = Inr sketch1_redrawn \<and>
   map_of (props (drawingContext sketch1_redrawn)) ''strokeStyle'' = Some (JStr ''#ff0000'')"
  by (simp add: resizeCanvas_def Renderer_resize_def Let_def get_prop_def set_prop_def
      sketch1_redrawn_def sketch1_def H1_def H0_def canvas_defaults_def)

subsection \<open>createGraphics\<close>

text \<open>
  C9, as the constructor is modelled. For all dimensions and either backend,
  \<^verbatim>\<open>createGraphics(w, h, backend)\<close> returns a renderer allocated by the call (its
  reference is the next free one, and a further call returns another), not flagged
  default, of the requested backend and dimensions, whose surface is new and hidden. It
  is neither the current default renderer nor any renderer of the registry. The call
  leaves the current renderer, its dimensions and every renderer the registry refers to
  as they were; the registry keeps its entries in order and gains the new renderer as
  its last entry.
\<close>

theorem createGraphics_appends_new_renderer:
  assumes r: "renderer s = Some d" and d: "d < nextRenderer s" and al: "allocated s"
  shows "\<exists>s'. createGraphics K H w h arg s = (nextRenderer s, s') \<and>
     nextRenderer s' = Suc (nextRenderer s) \<and> nextElt s' = Suc (nextElt s) \<and>
     nextRenderer s \<noteq> d \<and> nextRenderer s \<notin> set (elements s) \<and>
     \<not> isMainCanvas (renderers s' (nextRenderer s)) \<and>
     variant (renderers s' (nextRenderer s)) =
       (if requested K arg = WEBGL K then RendererGL else Renderer2D) \<and>
     rwidth (renderers s' (nextRenderer s)) = w \<and>
     rheight (renderers s' (nextRenderer s)) = h \<and>
     elt (renderers s' (nextRenderer s)) = nextElt s \<and>
     nextElt s \<notin> set (attached s) \<and>
     display (elts s' (nextElt s)) = ''none'' \<and>
     renderer s' = Some d \<and> renderers s' d = renderers s d \<and>
     canvas s' = canvas s \<and> drawingContext s' = drawingContext s \<and>
     elements s' = elements s @ [nextRenderer s] \<and>
     list_all (\<lambda>e. renderers s' e = renderers s e) (elements s) \<and>
     attached s' = attached s @ [nextElt s] \<and>
     (\<exists>g2 s''. createGraphics K H w2 h2 arg2 s' = (g2, s'') \<and> g2 \<noteq> nextRenderer s)"
proof -
  let ?g = "nextRenderer s"
  obtain s' where s': "s' = snd (createGraphics K H w h arg s)" by simp
  have first: "fst (createGraphics K H w0 h0 arg0 t) = nextRenderer t" for w0 h0 arg0 t
    by (simp add: createGraphics_defs split: option.splits)
  from first [of w h arg s] have res: "createGraphics K H w h arg s = (?g, s')"
    by (simp add: s' prod_eq_iff)
  have bound_r: "\<forall>e \<in> set (elements s). e < nextRenderer s"
    using al by (simp add: allocated_def list_all_iff)
  have bound_e: "\<forall>e \<in> set (attached s). e < nextElt s"
    using al by (simp add: allocated_def list_all_iff)
  have counters: "nextRenderer s' = Suc ?g" "nextElt s' = Suc (nextElt s)"
    by (simp_all add: s' createGraphics_defs split: option.splits)
  have new: "\<not> isMainCanvas (renderers s' ?g)"
    "variant (renderers s' ?g) = (if requested K arg = WEBGL K then RendererGL else Renderer2D)"
    "rwidth (renderers s' ?g) = w" "rheight (renderers s' ?g) = h"
    "elt (renderers s' ?g) = nextElt s" "display (elts s' (nextElt s)) = ''none''"
    by (simp_all add: s' createGraphics_defs split: option.splits)
  have kept: "renderer s' = renderer s" "canvas s' = canvas s"
    "drawingContext s' = drawingContext s" "elements s' = elements s @ [?g]"
    "attached s' = filter (\<lambda>e. e \<noteq> nextElt s) (attached s) @ [nextElt s]"
    by (simp_all add: s' createGraphics_defs attached_def filter_map comp_def
        split: option.splits)
  have others: "\<forall>e. e \<noteq> ?g \<longrightarrow> renderers s' e = renderers s e"
    by (simp add: s' createGraphics_defs split: option.splits)
  have gd: "?g \<noteq> d" using d by simp
  have gn: "?g \<notin> set (elements s)" using bound_r by auto
  have en: "nextElt s \<notin> set (attached s)" using bound_e by auto
  then have "filter (\<lambda>e. e \<noteq> nextElt s) (attached s) = attached s"
    by (simp only: filter_id_conv) metis
  with kept(5) have att: "attached s' = attached s @ [nextElt s]" by simp
  have same: "list_all (\<lambda>e. renderers s' e = renderers s e) (elements s)"
    unfolding list_all_iff
  proof
    fix e assume "e \<in> set (elements s)"
    with gn have "e \<noteq> ?g" by metis
    with others show "renderers s' e = renderers s e" by simp
  qed
  have dd: "renderers s' d = renderers s d" using gd others by simp
  obtain g2 s'' where second: "createGraphics K H w2 h2 arg2 s' = (g2, s'')"
    by (cases "createGraphics K H w2 h2 arg2 s'")
  with first [of w2 h2 arg2 s'] have "g2 = nextRenderer s'" by simp
  with counters have "g2 \<noteq> ?g" by simp
  with second have again: "\<exists>g2 s''. createGraphics K H w2 h2 arg2 s' = (g2, s'') \<and> g2 \<noteq> ?g"
    by blast
  from res counters gd gn new en r kept(1-4) dd same att again show ?thesis by auto
qed

theorem createGraphics_appends_new_renderer_witness:
  "renderer sketch1 = Some 0 \<and> 0 < nextRenderer sketch1 \<and> allocated sketch1 \<and>
   createGraphics K0 H0 50 50 None sketch1 = (1, sketch1_graphics) \<and>
   nextRenderer sketch1_graphics = 2 \<and>
   \<not> isMainCanvas (renderers sketch1_graphics 1) \<and>
   rwidth (renderers sketch1_graphics 1) = 50 \<and> rheight (renderers sketch1_graphics 1) = 50 \<and>
   renderer sketch1_graphics = Some 0 \<and>
   renderers sketch1_graphics 0 = renderers sketch1 0 \<and>
   rwidth (renderers sketch1_graphics 0) = 100 \<and> rheight (renderers sketch1_graphics 0) = 100 \<and>
   elements sketch1_graphics = [0, 1] \<and>
   (\<exists>g2 s''. createGraphics K0 H0 10 10 None sketch1_graphics = (g2, s'') \<and> g2 \<noteq> 1)"
proof -
  have a: "renderer sketch1 = Some 0" "0 < nextRenderer sketch1" "allocated sketch1"
    by (simp_all add: sketch1_def allocated_def attached_def)
  have v: "rwidth (renderers sketch1 0) = 100" "rheight (renderers sketch1 0) = 100"
    "elements sketch1 = [0]" "nextRenderer sketch1 = 1"
    by (simp_all add: sketch1_def)
  from createGraphics_appends_new_renderer [OF a, of K0 H0 50 50 None 10 10 None]
  obtain s' where
    f: "createGraphics K0 H0 50 50 None sketch1 = (nextRenderer sketch1, s')"
      "nextRenderer s' = Suc (nextRenderer sketch1)"
      "\<not> isMainCanvas (renderers s' (nextRenderer sketch1))"
      "rwidth (renderers s' (nextRenderer sketch1)) = 50"
      "rheight (renderers s' (nextRenderer sketch1)) = 50"
      "renderer s' = Some 0" "renderers s' 0 = renderers sketch1 0"
      "elements s' = elements sketch1 @ [nextRenderer sketch1]"
      "\<exists>g2 s''. createGraphics K0 H0 10 10 None s' = (g2, s'') \<and> g2 \<noteq> nextRenderer sketch1"
    by blast
  from f(1) sketch1_createGraphics have s': "s' = sketch1_graphics" by simp
  from f a v show ?thesis unfolding s' by simp
qed

text \<open>
  C9 as stated fails where it says the registry's contents are unchanged: after
  \<^verbatim>\<open>createGraphics(50, 50)\<close> on a sketch with its default canvas the registry holds
  two renderers, the default one and the new one.
\<close>

theorem createGraphics_registers:
  "createGraphics K0 H0 50 50 None sketch1 = (1, sketch1_graphics) \<and>
   elements sketch1 = [0] \<and> elements sketch1_graphics = [0, 1] \<and>
   elements sketch1_graphics \<noteq> elements sketch1"
proof -
  have "elements sketch1 = [0]" "elements sketch1_graphics = [0, 1]"
    "elements sketch1_graphics \<noteq> elements sketch1"
    by (simp_all add: sketch1_def sketch1_graphics_def)
  with sketch1_createGraphics show ?thesis by blast
qed

end
